theory Spec2Isabelle
  imports Complex_Main
begin

section \<open>JavaScript numbers\<close>

text \<open>
  The program computes with JavaScript numbers, which are IEEE 754 doubles. A finite
  double is modelled by the real it denotes, and every arithmetic operation rounds its
  exact result to the nearest double, ties to the even significand: \<open>double\<close>.
  \<open>expo x\<close> is the binary exponent of a positive \<open>x\<close>, that is
  \<open>2^(expo x) \<le> x < 2^(expo x + 1)\<close>; a double has 53 significant bits down to the
  exponent -1022 and the spacing \<open>2^(-1074)\<close> below it. The exponent is not bounded
  above: overflow to an infinity, which the program does not reach with axis values in
  [-1, 1], is outside the model, and so is the sign of zero, which no request shows. A
  decimal literal of the source, such as \<open>0.02\<close>, denotes \<open>double 0.02\<close>.
  \<open>NaN\<close> is part of the model, since it is what the program computes with when a
  gamepad reports fewer than four axes: reading \<open>gamepad.axes[i]\<close> out of range gives
  \<open>undefined\<close>, every comparison with \<open>undefined\<close> is false and every arithmetic
  operation on it gives \<open>NaN\<close>.
\<close>

function expo :: "real \<Rightarrow> int" where
  "expo x = (if x \<le> 0 then 0
             else if x < 1 then expo (2 * x) - 1
             else if 2 \<le> x then expo (x / 2) + 1
             else 0)"
  by pat_completeness auto
termination
proof (relation "measure (\<lambda>x. if x < 1 then 2 + nat \<lceil>1 / x\<rceil> else nat \<lceil>x\<rceil>)")
  show "wf (measure (\<lambda>x::real. if x < 1 then 2 + nat \<lceil>1 / x\<rceil> else nat \<lceil>x\<rceil>))"
    by simp
next
  fix x :: real
  assume a: "\<not> x \<le> 0" "x < 1"
  show "(2 * x, x) \<in> measure (\<lambda>x. if x < 1 then 2 + nat \<lceil>1 / x\<rceil> else nat \<lceil>x\<rceil>)"
  proof (cases "2 * x < 1")
    case True
    have "2 < 1 / x" using a True by (simp add: field_simps)
    then have "1 / (2 * x) \<le> 1 / x - 1" using a by (simp add: field_simps)
    then have "\<lceil>1 / (2 * x)\<rceil> \<le> \<lceil>1 / x - 1\<rceil>" by (rule ceiling_mono)
    moreover have "0 < \<lceil>1 / x\<rceil>" using a by simp
    ultimately show ?thesis using a True by simp
  next
    case False
    have "2 * x \<le> 2" using a by simp
    then have "\<lceil>2 * x\<rceil> \<le> 2" by (simp add: ceiling_le_iff)
    then have A: "nat \<lceil>2 * x\<rceil> \<le> 2" by simp
    have "0 < \<lceil>1 / x\<rceil>" using a by simp
    then have B: "1 \<le> nat \<lceil>1 / x\<rceil>" by linarith
    have "nat \<lceil>2 * x\<rceil> < 2 + nat \<lceil>1 / x\<rceil>" using A B by linarith
    then show ?thesis using a False by simp
  qed
next
  fix x :: real
  assume a: "\<not> x \<le> 0" "\<not> x < 1" "2 \<le> x"
  have "x / 2 \<le> x - 1" using a by simp
  then have "\<lceil>x / 2\<rceil> \<le> \<lceil>x - 1\<rceil>" by (rule ceiling_mono)
  moreover have "0 < \<lceil>x\<rceil>" using a by simp
  ultimately show "(x / 2, x) \<in> measure (\<lambda>x. if x < 1 then 2 + nat \<lceil>1 / x\<rceil> else nat \<lceil>x\<rceil>)"
    using a by simp
qed

declare expo.simps [simp del]

text \<open>The nearest integer, a tie going to the even one.\<close>

definition round_even :: "real \<Rightarrow> int" where
  "round_even y =
     (let f = \<lfloor>y\<rfloor>
      in if y - of_int f < 1 / 2 then f
         else if 1 / 2 < y - of_int f then f + 1
         else if even f then f else f + 1)"

definition double :: "real \<Rightarrow> real" where
  "double x =
     (let k = max (expo \<bar>x\<bar>) (- 1022) - 52
      in of_int (round_even (x / 2 powi k)) * 2 powi k)"

datatype jsnum = NaN | Num real

fun js_add :: "jsnum \<Rightarrow> jsnum \<Rightarrow> jsnum" where
  "js_add (Num a) (Num b) = Num (double (a + b))"
| "js_add _ _ = NaN"

fun js_sub :: "jsnum \<Rightarrow> jsnum \<Rightarrow> jsnum" where
  "js_sub (Num a) (Num b) = Num (double (a - b))"
| "js_sub _ _ = NaN"

fun js_mul :: "jsnum \<Rightarrow> jsnum \<Rightarrow> jsnum" where
  "js_mul (Num a) (Num b) = Num (double (a * b))"
| "js_mul _ _ = NaN"

text \<open>
  Division by zero gives an infinity or \<open>NaN\<close> in JavaScript. The program divides by
  \<open>maxX - minX = 2\<close> only; the model has no infinities and gives \<open>NaN\<close> for a zero
  divisor.
\<close>

fun js_div :: "jsnum \<Rightarrow> jsnum \<Rightarrow> jsnum" where
  "js_div (Num a) (Num b) = (if b = 0 then NaN else Num (double (a / b)))"
| "js_div _ _ = NaN"

fun js_neg :: "jsnum \<Rightarrow> jsnum" where
  "js_neg (Num a) = Num (- a)"
| "js_neg NaN = NaN"

text \<open>The comparisons \<open><\<close> and \<open>>\<close>: false as soon as one side is \<open>NaN\<close>.\<close>

fun js_lt :: "jsnum \<Rightarrow> jsnum \<Rightarrow> bool" where
  "js_lt (Num a) (Num b) = (a < b)"
| "js_lt _ _ = False"

fun js_gt :: "jsnum \<Rightarrow> jsnum \<Rightarrow> bool" where
  "js_gt (Num a) (Num b) = (a > b)"
| "js_gt _ _ = False"

fun Math_floor :: "jsnum \<Rightarrow> jsnum" where
  "Math_floor (Num a) = Num (of_int \<lfloor>a\<rfloor>)"
| "Math_floor NaN = NaN"

fun Math_trunc :: "jsnum \<Rightarrow> jsnum" where
  "Math_trunc (Num a) = Num (of_int (if 0 \<le> a then \<lfloor>a\<rfloor> else \<lceil>a\<rceil>))"
| "Math_trunc NaN = NaN"

fun Math_min :: "jsnum \<Rightarrow> jsnum \<Rightarrow> jsnum" where
  "Math_min (Num a) (Num b) = Num (min a b)"
| "Math_min _ _ = NaN"

fun Math_max :: "jsnum \<Rightarrow> jsnum \<Rightarrow> jsnum" where
  "Math_max (Num a) (Num b) = Num (max a b)"
| "Math_max _ _ = NaN"

section \<open>Requests, sockets and the robot object\<close>

text \<open>
  What the program does to the outside world is a list of effects, in program order: a
  \<open>fetch\<close> call with its URL, method and the object handed to \<open>JSON.stringify\<close>
  (none when the call has no body), the opening of a socket by \<open>new WebSocket(url)\<close>,
  and a line written by \<open>console.log\<close>.
\<close>

datatype jsval = JNum jsnum | JBool bool

record request =
  url :: string
  http_method :: string
  body :: "(string \<times> jsval) list option"

datatype effect = Fetch request | Connect string | Log string

text \<open>
  A \<open>fetch\<close> that is awaited either resolves with a response, of which the program
  reads the status only, or rejects (the network failed).
\<close>

datatype fetch_outcome = Resolved nat | Rejected

text \<open>
  \<open>new WebSocket(url)\<close> returns the socket or throws a \<open>DOMException\<close>: a
  \<open>SyntaxError\<close> when the URL does not parse, as \<open>ws://127.0.0.1:8080:5678\<close> for
  the address \<open>127.0.0.1:8080\<close>. The URL is built from the address the robot object
  was constructed with, which the program does not check.
\<close>

datatype socket_outcome = Constructed | Throws

datatype error = Error string | TypeError | DOMException

text \<open>Why a socket closed. The handlers of the program do not look at it.\<close>

datatype close_event = RemoteClose | NetworkFailure | ClientClose

text \<open>
  A WebSocket as far as the program touches it: its URL and its \<open>onclose\<close> property,
  which holds at most one handler; assigning the property replaces the handler. When the
  socket closes, the browser calls the handler the property holds at that moment.
\<close>

record websocket =
  ws_url :: string
  onclose :: "(close_event \<Rightarrow> effect list) option"

definition dispatch_close :: "websocket \<Rightarrow> close_event \<Rightarrow> effect list" where
  "dispatch_close w evt = (case onclose w of None \<Rightarrow> [] | Some h \<Rightarrow> h evt)"

text \<open>
  The fields of class \<open>Misty2Robot\<close>. \<open>headRotation\<close> is an array of two numbers that
  is never resized: a pair, component 0 first. The two frame counters start at 0 and are
  only incremented or reset: naturals. \<open>ws\<close> is \<open>undefined\<close> or the socket as
  \<open>getVideoStream\<close> created it; the program never reads the field again.
\<close>

record robot =
  ipAddress :: string
  headRotation :: "jsnum \<times> jsnum"
  framesToMoveHead :: nat
  framesToMoveBody :: nat
  sensitivity :: jsnum
  deadzone :: jsnum
  imageWidth :: jsnum
  imageHeight :: jsnum
  videoQuality :: jsnum
  ws :: "websocket option"

text \<open>The constructor; \<open>new_Misty2Robot\<close> is the call with the default arguments.\<close>

definition Misty2Robot :: "string \<Rightarrow> jsnum \<Rightarrow> jsnum \<Rightarrow> jsnum \<Rightarrow> robot" where
  "Misty2Robot ip quality width height =
     \<lparr> ipAddress = ip,
       headRotation = (Num 0, Num 0),
       framesToMoveHead = 0,
       framesToMoveBody = 0,
       sensitivity = Num (double 0.02),
       deadzone = Num (double 0.1),
       imageWidth = width,
       imageHeight = height,
       videoQuality = quality,
       ws = None \<rparr>"

definition new_Misty2Robot :: "string \<Rightarrow> robot" where
  "new_Misty2Robot ip = Misty2Robot ip (Num 100) (Num 400) (Num 540)"

text \<open>A gamepad, of which the program reads the array \<open>axes\<close> only.\<close>

record gamepad =
  axes :: "jsnum list"

text \<open>
  \<open>gamepad.axes[i]\<close>. Out of range the read gives \<open>undefined\<close>, which the two
  comparisons and the subtraction that follow treat as \<open>NaN\<close>.
\<close>

definition axis :: "gamepad \<Rightarrow> nat \<Rightarrow> jsnum" where
  "axis g i = (if i < length (axes g) then axes g ! i else NaN)"

section \<open>The input mapper\<close>

definition readAnalogSticks :: "gamepad \<Rightarrow> jsnum \<Rightarrow> jsnum list" where
  "readAnalogSticks g dz =
     (let leftStickX = axis g 0;
          leftStickX = (if js_lt leftStickX dz \<and> js_gt leftStickX (js_neg dz)
                        then Num 0 else leftStickX);
          leftStickY = axis g 1;
          leftStickY = (if js_lt leftStickY dz \<and> js_gt leftStickY (js_neg dz)
                        then Num 0 else leftStickY);
          rightStickX = axis g 2;
          rightStickX = (if js_lt rightStickX dz \<and> js_gt rightStickX (js_neg dz)
                         then Num 0 else rightStickX);
          rightStickY = axis g 3;
          rightStickY = (if js_lt rightStickY dz \<and> js_gt rightStickY (js_neg dz)
                         then Num 0 else rightStickY)
      in [leftStickX, leftStickY, rightStickX, rightStickY])"

definition mapAnalogValues :: "jsnum \<Rightarrow> jsnum \<Rightarrow> jsnum list" where
  "mapAnalogValues x y =
     (let minX = Num (- 1);
          maxX = Num 1;
          minY = Num (- 100);
          maxY = Num 100;
          scaledX = Math_floor
            (js_add (js_mul (js_div (js_sub x minX) (js_sub maxX minX)) (js_sub maxY minY)) minY);
          scaledY = Math_floor
            (js_add (js_mul (js_div (js_sub y minX) (js_sub maxX minX)) (js_sub maxY minY)) minY)
      in [scaledX, scaledY])"

definition clamp :: "jsnum \<Rightarrow> jsnum \<Rightarrow> jsnum \<Rightarrow> jsnum" where
  "clamp v lo hi = Math_max lo (Math_min v hi)"

definition moveHead :: "jsnum \<Rightarrow> jsnum \<Rightarrow> robot \<Rightarrow> effect list \<times> robot" where
  "moveHead pitch yaw r =
     (let r = r\<lparr>framesToMoveHead := Suc (framesToMoveHead r)\<rparr>
      in if framesToMoveHead r = 180
         then ([Fetch \<lparr> url = ''http://'' @ ipAddress r @ ''/api/head'',
                        http_method = ''POST'',
                        body = Some [(''Pitch'', JNum pitch),
                                     (''Yaw'', JNum yaw),
                                     (''Velocity'', JNum (Num 100))] \<rparr>],
               r\<lparr>framesToMoveHead := 0\<rparr>)
         else ([], r))"

definition move :: "jsnum \<Rightarrow> jsnum \<Rightarrow> robot \<Rightarrow> effect list \<times> robot" where
  "move linearVelocity angularVelocity r =
     (let r = r\<lparr>framesToMoveBody := Suc (framesToMoveBody r)\<rparr>
      in if framesToMoveBody r = 180
         then ([Fetch \<lparr> url = ''http://'' @ ipAddress r @ ''/api/drive'',
                        http_method = ''POST'',
                        body = Some [(''LinearVelocity'', JNum linearVelocity),
                                     (''AngularVelocity'', JNum angularVelocity)] \<rparr>],
               r\<lparr>framesToMoveBody := 0\<rparr>)
         else ([], r))"

definition update :: "gamepad \<Rightarrow> robot \<Rightarrow> effect list \<times> robot" where
  "update g r =
     (let stickValues = readAnalogSticks g (deadzone r);
          headValues = mapAnalogValues (stickValues ! 2) (stickValues ! 3);
          r = r\<lparr>headRotation :=
                 (js_add (fst (headRotation r)) (js_mul (headValues ! 0) (sensitivity r)),
                  snd (headRotation r))\<rparr>;
          r = r\<lparr>headRotation :=
                 (clamp (fst (headRotation r)) (Num (- 100)) (Num 100),
                  snd (headRotation r))\<rparr>;
          r = r\<lparr>headRotation :=
                 (fst (headRotation r),
                  js_add (snd (headRotation r)) (js_mul (headValues ! 1) (sensitivity r)))\<rparr>;
          r = r\<lparr>headRotation :=
                 (fst (headRotation r),
                  clamp (snd (headRotation r)) (Num (- 100)) (Num 100))\<rparr>;
          driveValues = mapAnalogValues (stickValues ! 0) (stickValues ! 1);
          (e1, r) = moveHead (Math_trunc (snd (headRotation r)))
                             (js_neg (Math_trunc (fst (headRotation r)))) r;
          (e2, r) = move (driveValues ! 1) (driveValues ! 0) r
      in (e1 @ e2, r))"

text \<open>
  The host page calls \<open>update\<close> once per animation frame. \<open>updates\<close> runs the calls
  of a list of samples in order and returns what each call emitted, one list per call,
  with the robot object after the last call.
\<close>

fun updates :: "gamepad list \<Rightarrow> robot \<Rightarrow> effect list list \<times> robot" where
  "updates [] r = ([], r)"
| "updates (g # gs) r =
     (let (e, r) = update g r;
          (es, r) = updates gs r
      in (e # es, r))"

section \<open>The video stream and the reboot\<close>

text \<open>
  The arrow function that \<open>getVideoStream\<close> assigns to \<open>onclose\<close>. It starts the stop
  request without awaiting it or attaching a handler to its promise, so whether that
  request succeeds is not an input of the function; then it logs.
\<close>

definition onclose_handler :: "robot \<Rightarrow> close_event \<Rightarrow> effect list" where
  "onclose_handler r evt =
     [Fetch \<lparr> url = ''http://'' @ ipAddress r @ ''/api/videostreaming/stop'',
              http_method = ''POST'', body = None \<rparr>,
      Log ''Closed socket'']"

text \<open>
  \<open>getVideoStream\<close> awaits one \<open>fetch\<close>; the outcome of that call is the first
  argument, the outcome of the socket constructor the second. A rejection leaves the
  function at the \<open>await\<close>, an exception of the constructor at the assignment to
  \<open>this.ws\<close>, which then does not take place. The result is the effects, the value or
  the error the returned promise settles with, and the robot.
\<close>

definition getVideoStream ::
  "fetch_outcome \<Rightarrow> socket_outcome \<Rightarrow> robot \<Rightarrow> effect list \<times> (error + websocket) \<times> robot" where
  "getVideoStream response socket r =
     (let start = Fetch \<lparr> url = ''http://'' @ ipAddress r @ ''/api/videostreaming/start'',
                           http_method = ''POST'',
                           body = Some [(''Port'', JNum (Num 5678)),
                                        (''Rotation'', JNum (Num 90)),
                                        (''Width'', JNum (imageWidth r)),
                                        (''Height'', JNum (imageHeight r)),
                                        (''Quality'', JNum (videoQuality r))] \<rparr>
      in case response of
           Rejected \<Rightarrow> ([start], Inl TypeError, r)
         | Resolved status \<Rightarrow>
             if status = 200
             then (case socket of
                     Throws \<Rightarrow> ([start], Inl DOMException, r)
                   | Constructed \<Rightarrow>
                      (let w = \<lparr> ws_url = ''ws://'' @ ipAddress r @ '':5678'', onclose = None \<rparr>;
                           w = w\<lparr>onclose := Some (onclose_handler r)\<rparr>;
                           r = r\<lparr>ws := Some w\<rparr>
                       in ([start, Connect (ws_url w)], Inr w, r)))
             else ([start], Inl (Error ''Failed to start video stream.''), r))"

definition restart :: "fetch_outcome \<Rightarrow> robot \<Rightarrow> effect list \<times> (error + unit) \<times> robot" where
  "restart response r =
     (let reboot = Fetch \<lparr> url = ''http://'' @ ipAddress r @ ''/api/reboot'',
                            http_method = ''POST'',
                            body = Some [(''Core'', JBool False),
                                         (''SensoryServices'', JBool True)] \<rparr>
      in case response of
           Rejected \<Rightarrow> ([reboot], Inl TypeError, r)
         | Resolved status \<Rightarrow> ([reboot], Inr (), r))"

text \<open>
  The quick start of the README (\<open>main.js\<close>) takes the socket that \<open>getVideoStream\<close>
  resolves with and assigns its own handlers to it. \<open>client_onclose\<close> is the function it
  assigns to \<open>onclose\<close>, \<open>quick_start_then\<close> the callback it passes to \<open>then\<close>
  (the \<open>onmessage\<close> property it also sets draws the frames and is not modelled).
\<close>

definition client_onclose :: "close_event \<Rightarrow> effect list" where
  "client_onclose evt = [Log ''Video stream closed.'']"

definition quick_start_then :: "websocket \<Rightarrow> websocket" where
  "quick_start_then w = w\<lparr>onclose := Some client_onclose\<rparr>"

section \<open>The vocabulary of the specification\<close>

text \<open>
  \<open>applyDeadzone_spec\<close> and \<open>scaleToCommandRange_spec\<close> follow the words of the
  specification (section 4.1), not the source: if \<open>-deadzone < value < deadzone\<close>,
  return 0, else return the value unchanged; and
  \<open>scaled = floor((v - (-1)) / (1 - (-1)) * (100 - (-100)) + (-100))\<close>, each
  operation of the formula giving a double.
\<close>

definition applyDeadzone_spec :: "jsnum \<Rightarrow> jsnum \<Rightarrow> jsnum" where
  "applyDeadzone_spec v dz = (if js_lt (js_neg dz) v \<and> js_lt v dz then Num 0 else v)"

fun scaleToCommandRange_spec :: "jsnum \<Rightarrow> jsnum" where
  "scaleToCommandRange_spec (Num v) =
     Num (of_int \<lfloor>double (double (double (double (v - (- 1)) / double (1 - (- 1)))
                                      * double (100 - (- 100)))
                              + (- 100))\<rfloor>)"
| "scaleToCommandRange_spec NaN = NaN"

text \<open>The requests among some effects that were posted to a given URL, in order.\<close>

fun posts_to :: "string \<Rightarrow> effect list \<Rightarrow> request list" where
  "posts_to u [] = []"
| "posts_to u (Fetch q # es) =
     (if url q = u \<and> http_method q = ''POST'' then q # posts_to u es else posts_to u es)"
| "posts_to u (_ # es) = posts_to u es"

text \<open>A number between -100 and 100; \<open>NaN\<close> is not.\<close>

fun in_range :: "jsnum \<Rightarrow> bool" where
  "in_range (Num a) = (- 100 \<le> a \<and> a \<le> 100)"
| "in_range NaN = False"

text \<open>What a component of the head rotation is after a frame: \<open>NaN\<close>, or a double in range.\<close>

fun settled :: "jsnum \<Rightarrow> bool" where
  "settled NaN = True"
| "settled (Num a) = (- 100 \<le> a \<and> a \<le> 100 \<and> double a = a)"

text \<open>
  The head rotation after a frame, in the words of the specification (section 4.1, steps
  1 to 3): filter the two head axes, scale them, add the deltas times the sensitivity,
  clamp each component to [-100, 100].
\<close>

definition nextHead_spec :: "gamepad \<Rightarrow> robot \<Rightarrow> jsnum \<times> jsnum" where
  "nextHead_spec g r =
     (clamp (js_add (fst (headRotation r))
                    (js_mul (scaleToCommandRange_spec (applyDeadzone_spec (axis g 2) (deadzone r)))
                            (sensitivity r)))
            (Num (- 100)) (Num 100),
      clamp (js_add (snd (headRotation r))
                    (js_mul (scaleToCommandRange_spec (applyDeadzone_spec (axis g 3) (deadzone r)))
                            (sensitivity r)))
            (Num (- 100)) (Num 100))"

section \<open>Lemmas\<close>

subsection \<open>Rounding to a double\<close>

lemma expo_bounds:
  "0 < x \<Longrightarrow> 2 powi expo x \<le> x \<and> x < 2 powi (expo x + 1)"
proof (induction x rule: expo.induct)
  case (1 x)
  show ?case
  proof (cases "x < 1")
    case True
    have e: "expo x = expo (2 * x) - 1"
      using True "1.prems" by (subst expo.simps) simp
    have ih: "2 powi expo (2 * x) \<le> 2 * x \<and> 2 * x < 2 powi (expo (2 * x) + 1)"
      using "1.IH"(1) True "1.prems" by simp
    have p: "(2::real) powi (expo (2 * x) - 1) = 2 powi expo (2 * x) / 2"
            "(2::real) powi (expo (2 * x) - 1 + 1) = 2 powi expo (2 * x)"
            "(2::real) powi (expo (2 * x) + 1) = 2 powi expo (2 * x) * 2"
      by (simp_all add: power_int_diff power_int_add)
    show ?thesis
      using ih unfolding e p by simp
  next
    case False
    show ?thesis
    proof (cases "2 \<le> x")
      case True
      have e: "expo x = expo (x / 2) + 1"
        using True False "1.prems" by (subst expo.simps) simp
      have ih: "2 powi expo (x / 2) \<le> x / 2 \<and> x / 2 < 2 powi (expo (x / 2) + 1)"
        using "1.IH"(2) True False "1.prems" by simp
      have p: "(2::real) powi (expo (x / 2) + 1 + 1) = 2 powi (expo (x / 2) + 1) * 2"
              "(2::real) powi (expo (x / 2) + 1) = 2 powi (expo (x / 2)) * 2"
        by (simp_all add: power_int_add)
      show ?thesis
        using ih unfolding e p by simp
    next
      case f2: False
      have e: "expo x = 0"
        using False f2 "1.prems" by (subst expo.simps) simp
      show ?thesis
        using False f2 unfolding e by simp
    qed
  qed
qed

lemma pow2_pos: "0 < (2::real) powi k"
  by (simp add: power_int_def)

lemma powi_less_iff: "(2::real) powi a < 2 powi b \<longleftrightarrow> a < b"
proof
  assume l: "(2::real) powi a < 2 powi b"
  show "a < b"
  proof (rule ccontr)
    assume "\<not> a < b"
    then have "b \<le> a" by simp
    then have "(2::real) powi b \<le> 2 powi a" by (intro power_int_increasing) simp_all
    then show False using l by simp
  qed
next
  assume "a < b"
  then show "(2::real) powi a < 2 powi b" by (intro power_int_strict_increasing) simp_all
qed

lemma powi_le_iff: "(2::real) powi a \<le> 2 powi b \<longleftrightarrow> a \<le> b"
  using powi_less_iff [of b a] by (simp add: not_less [symmetric])

lemma expo_le:
  assumes "0 < x" and "x \<le> 2 powi n"
  shows "expo x \<le> n"
proof -
  have "2 powi expo x \<le> x" using expo_bounds [OF assms(1)] by simp
  then have "(2::real) powi expo x \<le> 2 powi n" using assms(2) by linarith
  then show ?thesis by (simp add: powi_le_iff)
qed

lemma round_even_of_int [simp]: "round_even (of_int n) = n"
  by (simp add: round_even_def)

lemma round_even_lower: "\<lfloor>y\<rfloor> \<le> round_even y"
  by (simp add: round_even_def Let_def)

lemma round_even_le: "y \<le> of_int n \<Longrightarrow> round_even y \<le> n"
proof -
  assume a: "y \<le> of_int n"
  show ?thesis
  proof (cases "y = of_int n")
    case True
    then show ?thesis by simp
  next
    case False
    then have "y < of_int n" using a by simp
    then have "\<lfloor>y\<rfloor> < n" by (simp add: floor_less_iff)
    moreover have "round_even y \<le> \<lfloor>y\<rfloor> + 1" by (simp add: round_even_def Let_def)
    ultimately show ?thesis by linarith
  qed
qed

lemma round_even_ge: "of_int n \<le> y \<Longrightarrow> n \<le> round_even y"
  using round_even_lower [of y] by (meson le_floor_iff order_trans)

lemma round_even_minus: "round_even (- y) = - round_even y"
proof (cases "y \<in> \<int>")
  case True
  then obtain n where "y = of_int n" by (auto elim: Ints_cases)
  then show ?thesis by (simp flip: of_int_minus)
next
  case False
  then have ne: "y \<noteq> of_int \<lfloor>y\<rfloor>"
    by (metis Ints_of_int)
  have f: "\<lfloor>- y\<rfloor> = - \<lfloor>y\<rfloor> - 1"
    using ne by (simp add: ceiling_altdef ceiling_def [symmetric] floor_minus)
  have d: "0 < y - of_int \<lfloor>y\<rfloor>" "y - of_int \<lfloor>y\<rfloor> < 1"
    using ne floor_correct [of y] by linarith+
  show ?thesis
    unfolding round_even_def Let_def f
    using d by (auto simp: algebra_simps)
qed

lemma round_even_near: "\<bar>of_int (round_even y) - y\<bar> \<le> 1 / 2"
proof -
  have "of_int \<lfloor>y\<rfloor> \<le> y" "y < of_int \<lfloor>y\<rfloor> + 1"
    using floor_correct [of y] by simp_all
  then show ?thesis
    by (auto simp: round_even_def Let_def abs_le_iff)
qed

text \<open>
  The rounded value is an integer of at most 53 bits times the spacing, and it is off by
  at most half the spacing.
\<close>

lemma double_near:
  "\<bar>double x - x\<bar> \<le> 2 powi (max (expo \<bar>x\<bar>) (- 1022) - 52) / 2"
proof -
  define k where "k = max (expo \<bar>x\<bar>) (- 1022) - 52"
  have "double x - x = (of_int (round_even (x / 2 powi k)) - x / 2 powi k) * 2 powi k"
    using pow2_pos [of k] by (simp add: double_def Let_def k_def [symmetric] algebra_simps)
  then have "\<bar>double x - x\<bar> = \<bar>of_int (round_even (x / 2 powi k)) - x / 2 powi k\<bar> * 2 powi k"
    using pow2_pos [of k] by (simp add: abs_mult)
  also have "\<dots> \<le> 1 / 2 * 2 powi k"
    using round_even_near [of "x / 2 powi k"] pow2_pos [of k] by (intro mult_right_mono) simp_all
  finally show ?thesis
    by (simp add: k_def)
qed

lemma double_minus: "double (- x) = - double x"
  by (simp add: double_def Let_def round_even_minus)

lemma double_zero [simp]: "double 0 = 0"
  by (simp add: double_def round_even_def)

lemma double_nonneg: "0 \<le> x \<Longrightarrow> 0 \<le> double x"
proof -
  assume a: "0 \<le> x"
  define k where "k = max (expo \<bar>x\<bar>) (- 1022) - 52"
  have "of_int 0 \<le> x / 2 powi k"
    using a pow2_pos [of k] by simp
  then have "0 \<le> round_even (x / 2 powi k)"
    by (rule round_even_ge)
  then show ?thesis
    using pow2_pos [of k] by (simp add: double_def Let_def k_def [symmetric])
qed

lemma double_nonpos: "x \<le> 0 \<Longrightarrow> double x \<le> 0"
  using double_nonneg [of "- x"] by (simp add: double_minus)

text \<open>A multiple of the spacing at its own exponent is not moved.\<close>

lemma double_fixes:
  assumes "x / 2 powi (max (expo \<bar>x\<bar>) (- 1022) - 52) = of_int m"
  shows "double x = x"
proof -
  define k where "k = max (expo \<bar>x\<bar>) (- 1022) - 52"
  have "double x = of_int m * 2 powi k"
    using assms by (simp add: double_def Let_def k_def [symmetric])
  also have "\<dots> = x"
    using assms pow2_pos [of k] by (simp add: k_def [symmetric] field_simps)
  finally show ?thesis .
qed

text \<open>Rounding does not cross an integer of at most 52 bits.\<close>

lemma double_le_int:
  assumes "x \<le> of_int n" and "0 < n" and "n \<le> 2 ^ 52"
  shows "double x \<le> of_int n"
proof (cases "x \<le> 0")
  case True
  then have "double x \<le> 0" by (rule double_nonpos)
  then show ?thesis using assms(2) by linarith
next
  case False
  then have pos: "0 < x" by simp
  define k where "k = max (expo \<bar>x\<bar>) (- 1022) - 52"
  have "(of_int n :: real) \<le> of_int (2 ^ 52)"
    using assms(3) by (simp only: of_int_le_iff)
  then have "x \<le> 2 powi 52"
    using assms(1) by simp
  then have "expo x \<le> 52" by (rule expo_le [OF pos])
  then have k0: "k \<le> 0" using pos by (simp add: k_def)
  have pk: "(2::real) powi k = 1 / 2 ^ nat (- k)"
    using k0 by (simp add: power_int_def field_simps)
  have "x / 2 powi k \<le> of_int (n * 2 ^ nat (- k))"
    using assms(1) by (simp add: pk mult_right_mono)
  then have "round_even (x / 2 powi k) \<le> n * 2 ^ nat (- k)"
    by (rule round_even_le)
  then have "of_int (round_even (x / 2 powi k)) \<le> (of_int (n * 2 ^ nat (- k)) :: real)"
    by (simp only: of_int_le_iff)
  then have "real_of_int (round_even (x / 2 powi k)) * 2 powi k \<le> real_of_int n"
    by (simp add: pk field_simps)
  then show ?thesis
    by (simp add: double_def Let_def k_def [symmetric])
qed

lemma int_le_double:
  assumes "of_int n \<le> x" and "n < 0" and "- (2 ^ 52) \<le> n"
  shows "of_int n \<le> double x"
proof -
  have "double (- x) \<le> of_int (- n)"
    using assms by (intro double_le_int) simp_all
  then show ?thesis by (simp add: double_minus)
qed

text \<open>A double is not moved: rounding twice is rounding once.\<close>

lemma double_idem: "double (double x) = double x"
proof -
  define E where "E = max (expo \<bar>x\<bar>) (- 1022)"
  define k where "k = E - 52"
  define M where "M = round_even (x / 2 powi k)"
  define w where "w = real_of_int M * 2 powi k"
  have dx: "double x = w"
    by (simp add: double_def Let_def w_def M_def k_def E_def)
  show ?thesis
  proof (cases "M = 0")
    case True
    then show ?thesis by (simp add: dx w_def)
  next
    case False
    have x0: "x \<noteq> 0"
      using False by (auto simp: M_def round_even_def)
    have w0: "0 < \<bar>w\<bar>"
      using False pow2_pos [of k] by (simp add: w_def)
    define B :: real where "B = 2 ^ 53"
    have Bi: "B = real_of_int (2 ^ 53)" "- B = real_of_int (- (2 ^ 53))"
      by (simp_all add: B_def)
    have Ek: "E + 1 = 53 + k"
      by (simp add: k_def)
    have p53: "(2::real) powi (E + 1) = B * 2 powi k"
      unfolding Ek B_def by (simp add: power_int_add)
    have "\<bar>x\<bar> < 2 powi (expo \<bar>x\<bar> + 1)"
      using expo_bounds [of "\<bar>x\<bar>"] x0 by simp
    also have "\<dots> \<le> 2 powi (E + 1)"
      by (simp add: powi_le_iff E_def)
    finally have xb: "\<bar>x\<bar> < B * 2 powi k"
      by (simp only: p53)
    have "\<bar>x / 2 powi k\<bar> = \<bar>x\<bar> / 2 powi k"
      using pow2_pos [of k] by (simp add: abs_divide)
    also have "\<dots> < B"
      using xb pow2_pos [of k] by (simp add: pos_divide_less_eq)
    finally have yb: "\<bar>x / 2 powi k\<bar> < B" .
    have u: "x / 2 powi k \<le> real_of_int (2 ^ 53)"
      using yb Bi(1) by linarith
    have l: "real_of_int (- (2 ^ 53)) \<le> x / 2 powi k"
      using yb Bi(2) by linarith
    have Mu: "M \<le> 2 ^ 53"
      unfolding M_def using u by (rule round_even_le)
    have Ml: "- (2 ^ 53) \<le> M"
      unfolding M_def using l by (rule round_even_ge)
    have "real_of_int M \<le> real_of_int (2 ^ 53)"
      using Mu by (simp only: of_int_le_iff)
    moreover have "real_of_int (- (2 ^ 53)) \<le> real_of_int M"
      using Ml by (simp only: of_int_le_iff)
    ultimately have "real_of_int M \<le> B" "- B \<le> real_of_int M"
      using Bi by linarith+
    then have aMb: "\<bar>real_of_int M\<bar> \<le> B"
      by linarith
    have "\<bar>w\<bar> = \<bar>real_of_int M\<bar> * 2 powi k"
      using pow2_pos [of k] by (simp add: w_def abs_mult)
    also have "\<dots> \<le> B * 2 powi k"
      using aMb pow2_pos [of k] by (simp add: mult_right_mono)
    finally have wb: "\<bar>w\<bar> \<le> 2 powi (E + 1)"
      by (simp only: p53)
    define E' where "E' = max (expo \<bar>w\<bar>) (- 1022)"
    define k' where "k' = E' - 52"
    have e'le: "expo \<bar>w\<bar> \<le> E + 1"
      using w0 wb by (rule expo_le)
    have E'le: "E' \<le> E + 1"
      using e'le by (simp add: E'_def E_def)
    have goal: "\<exists>m. w / 2 powi k' = real_of_int m"
    proof (cases "k' \<le> k")
      case True
      have "w / 2 powi k' = real_of_int M * 2 powi (k - k')"
        by (simp add: w_def power_int_diff)
      also have "\<dots> = real_of_int (M * 2 ^ nat (k - k'))"
        using True by (simp add: power_int_def)
      finally show ?thesis by blast
    next
      case False
      then have k'eq: "k' = k + 1"
        using E'le by (simp add: k'_def k_def)
      then have "E' = E + 1"
        by (simp add: k'_def k_def)
      moreover have "- 1022 \<le> E"
        by (simp add: E_def)
      ultimately have "expo \<bar>w\<bar> = E + 1"
        by (simp add: E'_def max_def split: if_splits)
      then have "2 powi (E + 1) \<le> \<bar>w\<bar>"
        using expo_bounds [OF w0] by simp
      then have "\<bar>w\<bar> = 2 powi (E + 1)"
        using wb by simp
      then have "\<bar>real_of_int M\<bar> * 2 powi k = B * 2 powi k"
        using pow2_pos [of k] by (simp add: w_def abs_mult p53)
      then have aM: "\<bar>real_of_int M\<bar> = B"
        using pow2_pos [of k] by simp
      have half: "w / 2 powi k' = real_of_int M / 2"
        unfolding k'eq by (simp add: w_def power_int_add)
      have B2: "B / 2 = real_of_int (2 ^ 52)" "- B / 2 = real_of_int (- (2 ^ 52))"
        by (simp_all add: B_def)
      show ?thesis
      proof (cases "0 \<le> M")
        case True
        then have "real_of_int M = B" using aM by simp
        then have "w / 2 powi k' = real_of_int (2 ^ 52)" unfolding half by (simp only: B2)
        then show ?thesis by blast
      next
        case False
        then have "real_of_int M = - B" using aM by simp
        then have "w / 2 powi k' = real_of_int (- (2 ^ 52))" unfolding half by (simp only: B2)
        then show ?thesis by blast
      qed
    qed
    then obtain m where m: "w / 2 powi (max (expo \<bar>w\<bar>) (- 1022) - 52) = real_of_int m"
      unfolding k'_def E'_def by blast
    have "double w = w"
      using m by (rule double_fixes)
    then show ?thesis by (simp only: dx)
  qed
qed

text \<open>Evaluating \<open>double\<close> on a numeral.\<close>

lemmas double_eval = double_def expo.simps round_even_def Let_def

lemma double_consts:
  "double 1 = 1" "double 2 = 2" "double 100 = 100" "double 200 = 200"
  "double (- 100) = - 100" "double (1 / 2) = 1 / 2"
  by (simp_all add: double_eval)

subsection \<open>The source functions in the vocabulary of the specification\<close>

lemma js_gt_lt: "js_gt a b = js_lt b a"
  by (cases a; cases b) auto

lemma js_lt_irrefl: "\<not> js_lt a a"
  by (cases a) auto

lemma readAnalogSticks_spec:
  "readAnalogSticks g dz =
     [applyDeadzone_spec (axis g 0) dz, applyDeadzone_spec (axis g 1) dz,
      applyDeadzone_spec (axis g 2) dz, applyDeadzone_spec (axis g 3) dz]"
  unfolding readAnalogSticks_def Let_def js_gt_lt applyDeadzone_spec_def
  by (simp only: conj_commute)

lemma mapAnalogValues_spec:
  "mapAnalogValues x y = [scaleToCommandRange_spec x, scaleToCommandRange_spec y]"
  by (cases x; cases y) (simp_all add: mapAnalogValues_def Let_def double_consts)

lemma scale_Num: "\<exists>n. scaleToCommandRange_spec (Num a) = Num (of_int n)"
  by simp

lemma scale_NaN: "scaleToCommandRange_spec NaN = NaN"
  by simp

lemma scale_zero: "scaleToCommandRange_spec (Num 0) = Num 0"
  by (simp add: double_eval)

lemma clamp_Num: "clamp (Num a) (Num lo) (Num hi) = Num (max lo (min a hi))"
  by (simp add: clamp_def)

lemma clamp_NaN: "clamp NaN lo hi = NaN"
  by (cases lo) (simp_all add: clamp_def)

lemma in_range_clamp: "in_range (clamp (Num a) (Num (- 100)) (Num 100))"
  by (simp add: clamp_Num)

subsection \<open>One frame\<close>

lemma moveHead_eq:
  "moveHead p y r =
     (if Suc (framesToMoveHead r) = 180
      then ([Fetch \<lparr> url = ''http://'' @ ipAddress r @ ''/api/head'', http_method = ''POST'',
                     body = Some [(''Pitch'', JNum p), (''Yaw'', JNum y),
                                  (''Velocity'', JNum (Num 100))] \<rparr>],
            r\<lparr>framesToMoveHead := 0\<rparr>)
      else ([], r\<lparr>framesToMoveHead := Suc (framesToMoveHead r)\<rparr>))"
  by (simp add: moveHead_def Let_def)

lemma move_eq:
  "move l a r =
     (if Suc (framesToMoveBody r) = 180
      then ([Fetch \<lparr> url = ''http://'' @ ipAddress r @ ''/api/drive'', http_method = ''POST'',
                     body = Some [(''LinearVelocity'', JNum l), (''AngularVelocity'', JNum a)] \<rparr>],
            r\<lparr>framesToMoveBody := 0\<rparr>)
      else ([], r\<lparr>framesToMoveBody := Suc (framesToMoveBody r)\<rparr>))"
  by (simp add: move_def Let_def)

lemma update_eq:
  "update g r =
     (let m1 = moveHead (Math_trunc (snd (nextHead_spec g r))) (js_neg (Math_trunc (fst (nextHead_spec g r))))
                        (r\<lparr>headRotation := nextHead_spec g r\<rparr>);
          m2 = move (scaleToCommandRange_spec (applyDeadzone_spec (axis g 1) (deadzone r)))
                    (scaleToCommandRange_spec (applyDeadzone_spec (axis g 0) (deadzone r)))
                    (snd m1)
      in (fst m1 @ fst m2, snd m2))"
  unfolding update_def readAnalogSticks_spec mapAnalogValues_spec
  by (simp add: Let_def split_def nextHead_spec_def)

lemma update_headRotation: "headRotation (snd (update g r)) = nextHead_spec g r"
  by (simp add: update_eq moveHead_eq move_eq Let_def)

lemma update_framesToMoveHead:
  "framesToMoveHead (snd (update g r)) =
     (if Suc (framesToMoveHead r) = 180 then 0 else Suc (framesToMoveHead r))"
  by (simp add: update_eq moveHead_eq move_eq Let_def)

lemma update_framesToMoveBody:
  "framesToMoveBody (snd (update g r)) =
     (if Suc (framesToMoveBody r) = 180 then 0 else Suc (framesToMoveBody r))"
  by (simp add: update_eq moveHead_eq move_eq Let_def)

lemma update_constants:
  "ipAddress (snd (update g r)) = ipAddress r"
  "sensitivity (snd (update g r)) = sensitivity r"
  "deadzone (snd (update g r)) = deadzone r"
  "imageWidth (snd (update g r)) = imageWidth r"
  "imageHeight (snd (update g r)) = imageHeight r"
  "videoQuality (snd (update g r)) = videoQuality r"
  "ws (snd (update g r)) = ws r"
  by (simp_all add: update_eq moveHead_eq move_eq Let_def)

lemma update_effects:
  "fst (update g r) =
     (if Suc (framesToMoveHead r) = 180
      then [Fetch \<lparr> url = ''http://'' @ ipAddress r @ ''/api/head'', http_method = ''POST'',
                    body = Some [(''Pitch'', JNum (Math_trunc (snd (nextHead_spec g r)))),
                                 (''Yaw'', JNum (js_neg (Math_trunc (fst (nextHead_spec g r))))),
                                 (''Velocity'', JNum (Num 100))] \<rparr>]
      else []) @
     (if Suc (framesToMoveBody r) = 180
      then [Fetch \<lparr> url = ''http://'' @ ipAddress r @ ''/api/drive'', http_method = ''POST'',
                    body = Some [(''LinearVelocity'',
                                  JNum (scaleToCommandRange_spec (applyDeadzone_spec (axis g 1) (deadzone r)))),
                                 (''AngularVelocity'',
                                  JNum (scaleToCommandRange_spec (applyDeadzone_spec (axis g 0) (deadzone r))))] \<rparr>]
      else [])"
  by (simp add: update_eq moveHead_eq move_eq Let_def)

lemma posts_to_append: "posts_to u (xs @ ys) = posts_to u xs @ posts_to u ys"
  by (induction u xs rule: posts_to.induct) auto

lemma update_head_posts:
  "length (posts_to (''http://'' @ ipAddress r @ ''/api/head'') (fst (update g r))) =
     (if Suc (framesToMoveHead r) = 180 then 1 else 0)"
  by (simp add: update_effects)

lemma update_drive_posts:
  "length (posts_to (''http://'' @ ipAddress r @ ''/api/drive'') (fst (update g r))) =
     (if Suc (framesToMoveBody r) = 180 then 1 else 0)"
  by (simp add: update_effects)

lemma update_drive_posts_eq:
  "posts_to (''http://'' @ ipAddress r @ ''/api/drive'') (fst (update g r)) =
     (if Suc (framesToMoveBody r) = 180
      then [\<lparr> url = ''http://'' @ ipAddress r @ ''/api/drive'', http_method = ''POST'',
              body = Some [(''LinearVelocity'',
                            JNum (scaleToCommandRange_spec (applyDeadzone_spec (axis g 1) (deadzone r)))),
                           (''AngularVelocity'',
                            JNum (scaleToCommandRange_spec (applyDeadzone_spec (axis g 0) (deadzone r))))] \<rparr>]
      else [])"
  by (simp add: update_effects)

subsection \<open>A run of frames\<close>

lemma updates_Cons:
  "updates (g # gs) r =
     (fst (update g r) # fst (updates gs (snd (update g r))), snd (updates gs (snd (update g r))))"
  by (simp add: split_def Let_def)

lemma updates_length: "length (fst (updates gs r)) = length gs"
  by (induction gs arbitrary: r) (simp_all add: updates_Cons del: updates.simps(2))

lemma updates_append:
  "updates (xs @ ys) r =
     (fst (updates xs r) @ fst (updates ys (snd (updates xs r))),
      snd (updates ys (snd (updates xs r))))"
  by (induction xs arbitrary: r) (simp_all add: updates_Cons del: updates.simps(2))

lemma updates_ipAddress: "ipAddress (snd (updates gs r)) = ipAddress r"
  by (induction gs arbitrary: r) (simp_all add: updates_Cons update_constants del: updates.simps(2))

lemma updates_sensitivity: "sensitivity (snd (updates gs r)) = sensitivity r"
  by (induction gs arbitrary: r) (simp_all add: updates_Cons update_constants del: updates.simps(2))

lemma updates_deadzone: "deadzone (snd (updates gs r)) = deadzone r"
  by (induction gs arbitrary: r) (simp_all add: updates_Cons update_constants del: updates.simps(2))

lemma updates_window:
  assumes "i + n \<le> length gs"
  shows "take n (drop i (fst (updates gs r))) =
           fst (updates (take n (drop i gs)) (snd (updates (take i gs) r)))"
proof -
  have split: "gs = take i gs @ take n (drop i gs) @ drop (i + n) gs"
    by (metis append_take_drop_id drop_drop add.commute)
  have li: "length (fst (updates (take i gs) r)) = i"
    using assms by (simp add: updates_length)
  have ln: "length (fst (updates (take n (drop i gs)) (snd (updates (take i gs) r)))) = n"
    using assms by (simp add: updates_length)
  have "fst (updates gs r) =
          fst (updates (take i gs) r) @
          fst (updates (take n (drop i gs)) (snd (updates (take i gs) r))) @
          fst (updates (drop (i + n) gs)
                 (snd (updates (take n (drop i gs)) (snd (updates (take i gs) r)))))"
    by (subst split) (simp only: updates_append fst_conv snd_conv)
  then show ?thesis
    using li ln by simp
qed

lemma div_step:
  fixes c n :: nat
  assumes "c < 180"
  shows "(if Suc c = 180 then 1 else 0) + ((if Suc c = 180 then 0 else Suc c) + n) div 180
           = (c + Suc n) div 180"
proof (cases "Suc c = 180")
  case True
  then have "c + Suc n = 180 + n" by simp
  then show ?thesis using True by simp
next
  case False
  then show ?thesis by simp
qed

lemma mod_step:
  fixes c n :: nat
  assumes "c < 180"
  shows "((if Suc c = 180 then 0 else Suc c) + n) mod 180 = (c + Suc n) mod 180"
proof (cases "Suc c = 180")
  case True
  then have "c + Suc n = 180 + n" by simp
  then show ?thesis using True by simp
next
  case False
  then show ?thesis by simp
qed

lemma head_posts_run:
  assumes "framesToMoveHead r < 180"
  shows "length (posts_to (''http://'' @ ipAddress r @ ''/api/head'') (concat (fst (updates gs r))))
           = (framesToMoveHead r + length gs) div 180
         \<and> framesToMoveHead (snd (updates gs r)) = (framesToMoveHead r + length gs) mod 180"
  using assms
proof (induction gs arbitrary: r)
  case Nil
  then show ?case by simp
next
  case (Cons g gs)
  let ?r = "snd (update g r)"
  have c: "framesToMoveHead ?r = (if Suc (framesToMoveHead r) = 180 then 0 else Suc (framesToMoveHead r))"
    by (rule update_framesToMoveHead)
  have lt: "framesToMoveHead ?r < 180"
    using Cons.prems c by (simp split: if_splits)
  have ip: "ipAddress ?r = ipAddress r"
    by (simp add: update_constants)
  define u where "u = ''http://'' @ ipAddress r @ ''/api/head''"
  note ih = Cons.IH [OF lt, unfolded ip c, folded u_def]
  have one: "length (posts_to u (fst (update g r))) = (if Suc (framesToMoveHead r) = 180 then 1 else 0)"
    unfolding u_def by (rule update_head_posts)
  have "length (posts_to u (concat (fst (updates (g # gs) r)))) =
          length (posts_to u (fst (update g r))) + length (posts_to u (concat (fst (updates gs ?r))))"
    by (simp only: updates_Cons fst_conv concat.simps posts_to_append length_append)
  also have "\<dots> = (framesToMoveHead r + length (g # gs)) div 180"
    using ih one div_step [OF Cons.prems, of "length gs"] by simp
  finally have A: "length (posts_to u (concat (fst (updates (g # gs) r)))) =
                     (framesToMoveHead r + length (g # gs)) div 180" .
  have B: "framesToMoveHead (snd (updates (g # gs) r)) = (framesToMoveHead r + length (g # gs)) mod 180"
    using ih mod_step [OF Cons.prems, of "length gs"]
    by (simp add: updates_Cons del: updates.simps(2))
  show ?case
    using A B unfolding u_def by blast
qed

lemma drive_posts_run:
  assumes "framesToMoveBody r < 180"
  shows "length (posts_to (''http://'' @ ipAddress r @ ''/api/drive'') (concat (fst (updates gs r))))
           = (framesToMoveBody r + length gs) div 180
         \<and> framesToMoveBody (snd (updates gs r)) = (framesToMoveBody r + length gs) mod 180"
  using assms
proof (induction gs arbitrary: r)
  case Nil
  then show ?case by simp
next
  case (Cons g gs)
  let ?r = "snd (update g r)"
  have c: "framesToMoveBody ?r = (if Suc (framesToMoveBody r) = 180 then 0 else Suc (framesToMoveBody r))"
    by (rule update_framesToMoveBody)
  have lt: "framesToMoveBody ?r < 180"
    using Cons.prems c by (simp split: if_splits)
  have ip: "ipAddress ?r = ipAddress r"
    by (simp add: update_constants)
  define u where "u = ''http://'' @ ipAddress r @ ''/api/drive''"
  note ih = Cons.IH [OF lt, unfolded ip c, folded u_def]
  have one: "length (posts_to u (fst (update g r))) = (if Suc (framesToMoveBody r) = 180 then 1 else 0)"
    unfolding u_def by (rule update_drive_posts)
  have "length (posts_to u (concat (fst (updates (g # gs) r)))) =
          length (posts_to u (fst (update g r))) + length (posts_to u (concat (fst (updates gs ?r))))"
    by (simp only: updates_Cons fst_conv concat.simps posts_to_append length_append)
  also have "\<dots> = (framesToMoveBody r + length (g # gs)) div 180"
    using ih one div_step [OF Cons.prems, of "length gs"] by simp
  finally have A: "length (posts_to u (concat (fst (updates (g # gs) r)))) =
                     (framesToMoveBody r + length (g # gs)) div 180" .
  have B: "framesToMoveBody (snd (updates (g # gs) r)) = (framesToMoveBody r + length (g # gs)) mod 180"
    using ih mod_step [OF Cons.prems, of "length gs"]
    by (simp add: updates_Cons del: updates.simps(2))
  show ?case
    using A B unfolding u_def by blast
qed

lemma head_posts_window:
  assumes "i + 180 \<le> length gs"
  shows "length (posts_to (''http://'' @ ip @ ''/api/head'')
           (concat (take 180 (drop i (fst (updates gs (Misty2Robot ip q w h))))))) = 1"
proof -
  let ?r0 = "Misty2Robot ip q w h"
  let ?ri = "snd (updates (take i gs) ?r0)"
  have r0: "framesToMoveHead ?r0 < 180" "ipAddress ?r0 = ip"
    by (simp_all add: Misty2Robot_def)
  have ci: "framesToMoveHead ?ri < 180"
    using head_posts_run [OF r0(1), of "take i gs"] by simp
  have ipi: "ipAddress ?ri = ip"
    by (simp add: updates_ipAddress r0)
  have len: "length (take 180 (drop i gs)) = 180"
    using assms by simp
  have "length (posts_to (''http://'' @ ip @ ''/api/head'')
          (concat (fst (updates (take 180 (drop i gs)) ?ri)))) = (framesToMoveHead ?ri + 180) div 180"
    using head_posts_run [OF ci, of "take 180 (drop i gs)"] unfolding ipi len by simp
  also have "\<dots> = 1"
    using ci by simp
  finally show ?thesis
    by (simp only: updates_window [OF assms])
qed

lemma drive_posts_window:
  assumes "i + 180 \<le> length gs"
  shows "length (posts_to (''http://'' @ ip @ ''/api/drive'')
           (concat (take 180 (drop i (fst (updates gs (Misty2Robot ip q w h))))))) = 1"
proof -
  let ?r0 = "Misty2Robot ip q w h"
  let ?ri = "snd (updates (take i gs) ?r0)"
  have r0: "framesToMoveBody ?r0 < 180" "ipAddress ?r0 = ip"
    by (simp_all add: Misty2Robot_def)
  have ci: "framesToMoveBody ?ri < 180"
    using drive_posts_run [OF r0(1), of "take i gs"] by simp
  have ipi: "ipAddress ?ri = ip"
    by (simp add: updates_ipAddress r0)
  have len: "length (take 180 (drop i gs)) = 180"
    using assms by simp
  have "length (posts_to (''http://'' @ ip @ ''/api/drive'')
          (concat (fst (updates (take 180 (drop i gs)) ?ri)))) = (framesToMoveBody ?ri + 180) div 180"
    using drive_posts_run [OF ci, of "take 180 (drop i gs)"] unfolding ipi len by simp
  also have "\<dots> = 1"
    using ci by simp
  finally show ?thesis
    by (simp only: updates_window [OF assms])
qed

subsection \<open>The head rotation stays in range\<close>

lemma applyDeadzone_spec_Num: "v \<noteq> NaN \<Longrightarrow> \<exists>a. applyDeadzone_spec v dz = Num a"
  by (cases v) (simp_all add: applyDeadzone_spec_def)

lemma head_component_in_range:
  assumes "h \<noteq> NaN" and "v \<noteq> NaN"
  shows "in_range (clamp (js_add h (js_mul (scaleToCommandRange_spec (applyDeadzone_spec v dz)) (Num s)))
                         (Num (- 100)) (Num 100))"
proof -
  obtain a where a: "applyDeadzone_spec v dz = Num a"
    using applyDeadzone_spec_Num [OF assms(2)] by blast
  obtain n where n: "scaleToCommandRange_spec (Num a) = Num (of_int n)"
    using scale_Num by blast
  obtain b where b: "h = Num b"
    using assms(1) by (cases h) simp_all
  show ?thesis
    unfolding a n b js_mul.simps js_add.simps by (rule in_range_clamp)
qed

lemma in_range_not_NaN: "in_range v \<Longrightarrow> v \<noteq> NaN"
  by (cases v) simp_all

lemma nextHead_spec_in_range:
  assumes "sensitivity r = Num s"
    and "in_range (fst (headRotation r))" and "in_range (snd (headRotation r))"
    and "axis g 2 \<noteq> NaN" and "axis g 3 \<noteq> NaN"
  shows "in_range (fst (nextHead_spec g r)) \<and> in_range (snd (nextHead_spec g r))"
  using assms
  by (simp add: nextHead_spec_def head_component_in_range in_range_not_NaN)

lemma updates_in_range:
  assumes "sensitivity r = Num s"
    and "in_range (fst (headRotation r))" and "in_range (snd (headRotation r))"
    and "\<forall>g \<in> set gs. axis g 2 \<noteq> NaN \<and> axis g 3 \<noteq> NaN"
  shows "in_range (fst (headRotation (snd (updates gs r)))) \<and>
         in_range (snd (headRotation (snd (updates gs r))))"
  using assms
proof (induction gs arbitrary: r)
  case Nil
  then show ?case by simp
next
  case (Cons g gs)
  let ?r = "snd (update g r)"
  have s: "sensitivity ?r = Num s"
    using Cons.prems(1) by (simp add: update_constants)
  have h: "in_range (fst (headRotation ?r)) \<and> in_range (snd (headRotation ?r))"
    unfolding update_headRotation
    using Cons.prems by (intro nextHead_spec_in_range [where s = s]) simp_all
  have rest: "\<forall>g \<in> set gs. axis g 2 \<noteq> NaN \<and> axis g 3 \<noteq> NaN"
    using Cons.prems(4) by simp
  show ?case
    using Cons.IH [OF s conjunct1 [OF h] conjunct2 [OF h] rest]
    by (simp add: updates_Cons del: updates.simps(2))
qed

lemma Misty2Robot_fields:
  "ipAddress (Misty2Robot ip q w h) = ip"
  "headRotation (Misty2Robot ip q w h) = (Num 0, Num 0)"
  "framesToMoveHead (Misty2Robot ip q w h) = 0"
  "framesToMoveBody (Misty2Robot ip q w h) = 0"
  "sensitivity (Misty2Robot ip q w h) = Num (double 0.02)"
  "deadzone (Misty2Robot ip q w h) = Num (double 0.1)"
  by (simp_all add: Misty2Robot_def)

subsection \<open>Idle sticks\<close>

lemma settled_clamp: "settled (clamp (js_add x y) (Num (- 100)) (Num 100))"
proof (cases "js_add x y")
  case NaN
  then show ?thesis by (simp add: clamp_NaN)
next
  case (Num z)
  then obtain a b where "x = Num a" "y = Num b" "z = double (a + b)"
    by (cases x; cases y) simp_all
  then have z: "double z = z"
    by (simp add: double_idem)
  show ?thesis
    unfolding Num clamp_Num using z
    by (simp add: max_def min_def double_consts)
qed

lemma nextHead_spec_settled: "settled (fst (nextHead_spec g r)) \<and> settled (snd (nextHead_spec g r))"
  by (simp add: nextHead_spec_def settled_clamp)

lemma updates_settled:
  assumes "settled (fst (headRotation r))" and "settled (snd (headRotation r))"
  shows "settled (fst (headRotation (snd (updates gs r)))) \<and>
         settled (snd (headRotation (snd (updates gs r))))"
  using assms
proof (induction gs arbitrary: r)
  case Nil
  then show ?case by simp
next
  case (Cons g gs)
  have "settled (fst (headRotation (snd (update g r))))"
       "settled (snd (headRotation (snd (update g r))))"
    by (simp_all add: update_headRotation nextHead_spec_settled)
  from Cons.IH [OF this] show ?case
    by (simp add: updates_Cons del: updates.simps(2))
qed

lemma idle_component:
  assumes "settled h" and "js_lt (js_neg dz) v \<and> js_lt v dz"
  shows "clamp (js_add h (js_mul (scaleToCommandRange_spec (applyDeadzone_spec v dz)) (Num s)))
               (Num (- 100)) (Num 100) = h"
proof -
  have z: "applyDeadzone_spec v dz = Num 0"
    using assms(2) by (simp add: applyDeadzone_spec_def)
  have m: "js_mul (Num 0) (Num s) = Num 0"
    by simp
  show ?thesis
    using assms(1) unfolding z scale_zero m
    by (cases h) (simp_all add: clamp_Num clamp_NaN)
qed

lemma idle_nextHead_spec:
  assumes "sensitivity r = Num s"
    and "settled (fst (headRotation r))" and "settled (snd (headRotation r))"
    and "js_lt (js_neg (deadzone r)) (axis g 2) \<and> js_lt (axis g 2) (deadzone r)"
    and "js_lt (js_neg (deadzone r)) (axis g 3) \<and> js_lt (axis g 3) (deadzone r)"
  shows "nextHead_spec g r = headRotation r"
  unfolding nextHead_spec_def assms(1)
  by (simp only: idle_component [OF assms(2) assms(4)] idle_component [OF assms(3) assms(5)]
        prod.collapse)

subsection \<open>Bounds of the scaling\<close>

lemma scale_bounds:
  fixes a :: real
  assumes "- 1 \<le> a" and "a \<le> 1"
  shows "- 100 \<le> \<lfloor>double (double (double (double (a - (- 1)) / double (1 - (- 1)))
                                      * double (100 - (- 100)))
                              + (- 100))\<rfloor>"
    and "\<lfloor>double (double (double (double (a - (- 1)) / double (1 - (- 1)))
                            * double (100 - (- 100)))
                    + (- 100))\<rfloor> \<le> 100"
proof -
  define t1 where "t1 = double (a - (- 1))"
  define t2 where "t2 = double (t1 / 2)"
  define t3 where "t3 = double (t2 * 200)"
  define t4 where "t4 = double (t3 + (- 100))"
  have c: "double (1 - (- 1)) = 2" "double (100 - (- 100)) = 200"
    by (simp_all add: double_consts)
  have t1: "0 \<le> t1" "t1 \<le> 2"
    unfolding t1_def using assms double_nonneg [of "a - (- 1)"] double_le_int [of "a - (- 1)" 2]
    by simp_all
  have t2: "0 \<le> t2" "t2 \<le> 1"
    unfolding t2_def using t1 double_nonneg [of "t1 / 2"] double_le_int [of "t1 / 2" 1]
    by simp_all
  have t3: "0 \<le> t3" "t3 \<le> 200"
    unfolding t3_def using t2 double_nonneg [of "t2 * 200"] double_le_int [of "t2 * 200" 200]
    by simp_all
  have t4: "- 100 \<le> t4" "t4 \<le> 100"
    unfolding t4_def
    using t3 int_le_double [of "- 100" "t3 + (- 100)"] double_le_int [of "t3 + (- 100)" 100]
    by simp_all
  have e: "double (double (double (double (a - (- 1)) / double (1 - (- 1)))
                            * double (100 - (- 100))) + (- 100)) = t4"
    by (simp only: c t1_def t2_def t3_def t4_def)
  have "real_of_int (- 100) \<le> t4" using t4 by simp
  then show "- 100 \<le> \<lfloor>double (double (double (double (a - (- 1)) / double (1 - (- 1)))
                                      * double (100 - (- 100))) + (- 100))\<rfloor>"
    unfolding e by (simp only: le_floor_iff)
  have "t4 \<le> real_of_int 100" using t4 by simp
  then have "\<lfloor>t4\<rfloor> \<le> \<lfloor>real_of_int 100\<rfloor>" by (rule floor_mono)
  then show "\<lfloor>double (double (double (double (a - (- 1)) / double (1 - (- 1)))
                            * double (100 - (- 100))) + (- 100))\<rfloor> \<le> 100"
    unfolding e by simp
qed

subsection \<open>Two frames by hand\<close>

text \<open>
  A head stick far outside [-1, 1] drives the head rotation to the bounds and no further. A
  gamepad with two axes only turns both components into \<open>NaN\<close>, which no later frame
  repairs: the program does not check that the four axes are there.
\<close>

lemma clamped_example:
  "headRotation (snd (update \<lparr>axes = [Num 0, Num 0, Num 1000, Num (- 1000)]\<rparr>
      (Misty2Robot ''10.0.0.2'' (Num 100) (Num 400) (Num 540)))) = (Num 100, Num (- 100))"
  by (simp add: update_headRotation nextHead_spec_def Misty2Robot_fields axis_def
        applyDeadzone_spec_def clamp_Num double_eval)

lemma NaN_example:
  "headRotation (snd (update \<lparr>axes = [Num 0, Num 0]\<rparr>
      (Misty2Robot ''10.0.0.2'' (Num 100) (Num 400) (Num 540)))) = (NaN, NaN)"
  by (simp add: update_headRotation nextHead_spec_def Misty2Robot_fields axis_def
        applyDeadzone_spec_def clamp_NaN)

subsection \<open>The close handler\<close>

text \<open>
  While \<open>onclose\<close> holds what \<open>getVideoStream\<close> assigned, a close of the socket, for
  whatever reason, posts one stop request and logs; nothing is returned to or thrown at
  the caller.
\<close>

lemma onclose_handler_in_place:
  assumes "fst (snd (getVideoStream response socket r)) = Inr w"
  shows "dispatch_close w evt =
           [Fetch \<lparr> url = ''http://'' @ ipAddress r @ ''/api/videostreaming/stop'',
                    http_method = ''POST'', body = None \<rparr>,
            Log ''Closed socket'']"
  using assms
  by (cases response; cases socket)
     (auto simp: getVideoStream_def Let_def dispatch_close_def onclose_handler_def split: if_splits)

subsection \<open>The arithmetic of the program on examples\<close>

text \<open>
  Decimal literals as doubles, two scalings where rounding every operation gives another
  integer than the formula over the reals (13 and 16, and 49 and -1), and ten frames of
  the head axis 7/64, which add the double 0.2 ten times and end just below 2.
\<close>

lemma lit: "double 0.13 = 1170935903116329 / 9007199254740992"
  "double 0.16 = 5764607523034235 / 36028797018963968"
  "double 0.02 = 5764607523034235 / 288230376151711744"
  "double 0.1 = 3602879701896397 / 36028797018963968"
  by (simp_all add: double_eval)

lemma doubles_example:
  "mapAnalogValues (Num (double 0.13)) (Num (double 0.16)) = [Num 12, Num 15]"
  by (simp add: mapAnalogValues_spec double_eval)

lemma doubles_example2:
  "mapAnalogValues (Num (1 / 2 - 1 / 2 ^ 54)) (Num (- (1 / 2 ^ 60))) = [Num 50, Num 0]"
  by (simp add: mapAnalogValues_spec double_eval)

lemma updates_replicate_Suc:
  "snd (updates (replicate (Suc n) g) r) = snd (update g (snd (updates (replicate n g) r)))"
proof -
  have "replicate (Suc n) g = replicate n g @ [g]"
    by (simp add: replicate_append_same)
  then show ?thesis
    by (simp only: updates_append snd_conv updates_Cons updates.simps(1))
qed

lemma accumulation_step:
  assumes "headRotation r = (Num a, Num 100)"
    and "sensitivity r = Num (double 0.02)" and "deadzone r = Num (double 0.1)"
  shows "headRotation (snd (update \<lparr>axes = [Num 0, Num 0, Num (7 / 64), Num 1000]\<rparr> r)) =
    (Num (max (- 100) (min (double (a + 3602879701896397 / 18014398509481984)) 100)), Num 100)"
proof -
  let ?g = "\<lparr>axes = [Num 0, Num 0, Num (7 / 64), Num 1000]\<rparr>"
  have x: "scaleToCommandRange_spec (applyDeadzone_spec (axis ?g 2) (Num (double 0.1))) = Num 10"
    by (simp add: axis_def applyDeadzone_spec_def double_eval)
  have y: "scaleToCommandRange_spec (applyDeadzone_spec (axis ?g 3) (Num (double 0.1))) = Num 100000"
    by (simp add: axis_def applyDeadzone_spec_def double_eval)
  have dx: "js_mul (Num 10) (Num (double 0.02)) = Num (3602879701896397 / 18014398509481984)"
    by (simp add: double_eval)
  have dy: "clamp (js_add (Num 100) (js_mul (Num 100000) (Num (double 0.02)))) (Num (- 100)) (Num 100)
              = Num 100"
    by (simp add: clamp_Num double_eval)
  show ?thesis
    unfolding update_headRotation nextHead_spec_def assms fst_conv snd_conv x y dx dy
    by (simp only: js_add.simps clamp_Num)
qed

lemma accumulation_example:
  "headRotation (snd (updates (replicate 10 \<lparr>axes = [Num 0, Num 0, Num (7 / 64), Num 1000]\<rparr>)
      (Misty2Robot ''10.0.0.2'' (Num 100) (Num 400) (Num 540)))) =
     (Num (9007199254740991 / 4503599627370496), Num 100)"
proof -
  let ?g = "\<lparr>axes = [Num 0, Num 0, Num (7 / 64), Num 1000]\<rparr>"
  let ?r = "\<lambda>n. snd (updates (replicate n ?g) (Misty2Robot ''10.0.0.2'' (Num 100) (Num 400) (Num 540)))"
  have c: "sensitivity (?r n) = Num (double 0.02)" "deadzone (?r n) = Num (double 0.1)" for n
    by (simp_all only: updates_sensitivity updates_deadzone Misty2Robot_fields)
  have s: "?r (Suc n) = snd (update ?g (?r n))" for n
    by (rule updates_replicate_Suc)
  have h1: "headRotation (?r (Suc 0)) = (Num (3602879701896397 / 18014398509481984), Num 100)"
    by (subst s)
       (simp add: update_headRotation nextHead_spec_def Misty2Robot_fields axis_def
          applyDeadzone_spec_def clamp_Num double_eval)
  have h2: "headRotation (?r (Suc (Suc 0))) = (Num (3602879701896397 / 9007199254740992), Num 100)"
    by (subst s, subst accumulation_step [OF h1 c]) (simp add: double_eval)
  have h3: "headRotation (?r (Suc (Suc (Suc 0)))) = (Num (1351079888211149 / 2251799813685248), Num 100)"
    by (subst s, subst accumulation_step [OF h2 c]) (simp add: double_eval)
  have h4: "headRotation (?r (Suc (Suc (Suc (Suc 0))))) = (Num (3602879701896397 / 4503599627370496), Num 100)"
    by (subst s, subst accumulation_step [OF h3 c]) (simp add: double_eval)
  have h5: "headRotation (?r (Suc (Suc (Suc (Suc (Suc 0)))))) = (Num (1), Num 100)"
    by (subst s, subst accumulation_step [OF h4 c]) (simp add: double_eval)
  have h6: "headRotation (?r (Suc (Suc (Suc (Suc (Suc (Suc 0))))))) = (Num (5404319552844595 / 4503599627370496), Num 100)"
    by (subst s, subst accumulation_step [OF h5 c]) (simp add: double_eval)
  have h7: "headRotation (?r (Suc (Suc (Suc (Suc (Suc (Suc (Suc 0)))))))) = (Num (3152519739159347 / 2251799813685248), Num 100)"
    by (subst s, subst accumulation_step [OF h6 c]) (simp add: double_eval)
  have h8: "headRotation (?r (Suc (Suc (Suc (Suc (Suc (Suc (Suc (Suc 0))))))))) = (Num (7205759403792793 / 4503599627370496), Num 100)"
    by (subst s, subst accumulation_step [OF h7 c]) (simp add: double_eval)
  have h9: "headRotation (?r (Suc (Suc (Suc (Suc (Suc (Suc (Suc (Suc (Suc 0)))))))))) = (Num (2026619832316723 / 1125899906842624), Num 100)"
    by (subst s, subst accumulation_step [OF h8 c]) (simp add: double_eval)
  have h10: "headRotation (?r (Suc (Suc (Suc (Suc (Suc (Suc (Suc (Suc (Suc (Suc 0))))))))))) = (Num (9007199254740991 / 4503599627370496), Num 100)"
    by (subst s, subst accumulation_step [OF h9 c]) (simp add: double_eval)
  have "(10::nat) = Suc (Suc (Suc (Suc (Suc (Suc (Suc (Suc (Suc (Suc 0)))))))))"
    by simp
  then show ?thesis
    using h10 by (simp only:)
qed

section \<open>The claims\<close>

subsection \<open>Throttling\<close>

text \<open>
  Claim C1. From a freshly constructed robot object and for every list of samples, any
  180 consecutive calls of \<open>update\<close> post exactly one head command and exactly one drive
  command, whatever the samples hold (missing axes and \<open>NaN\<close> included). In every
  state, a call posts a head command exactly when the incremented head counter is 180,
  and then resets that counter to 0; otherwise it leaves the counter incremented. The same
  holds for the drive command and the body counter, and neither counter enters the
  equations of the other.
\<close>

theorem one_command_per_180_frames:
  "(i + 180 \<le> length gs \<longrightarrow>
      length (posts_to (''http://'' @ ip @ ''/api/head'')
        (concat (take 180 (drop i (fst (updates gs (Misty2Robot ip q w h))))))) = 1 \<and>
      length (posts_to (''http://'' @ ip @ ''/api/drive'')
        (concat (take 180 (drop i (fst (updates gs (Misty2Robot ip q w h))))))) = 1) \<and>
   length (posts_to (''http://'' @ ipAddress r @ ''/api/head'') (fst (update g r))) =
     (if Suc (framesToMoveHead r) = 180 then 1 else 0) \<and>
   framesToMoveHead (snd (update g r)) =
     (if Suc (framesToMoveHead r) = 180 then 0 else Suc (framesToMoveHead r)) \<and>
   length (posts_to (''http://'' @ ipAddress r @ ''/api/drive'') (fst (update g r))) =
     (if Suc (framesToMoveBody r) = 180 then 1 else 0) \<and>
   framesToMoveBody (snd (update g r)) =
     (if Suc (framesToMoveBody r) = 180 then 0 else Suc (framesToMoveBody r))"
  using head_posts_window [of i gs ip q w h] drive_posts_window [of i gs ip q w h]
    update_head_posts [of r g] update_drive_posts [of r g]
    update_framesToMoveHead [of g r] update_framesToMoveBody [of g r]
  by blast

theorem one_command_per_180_frames_witness:
  "7 + 180 \<le> length (replicate 200 \<lparr>axes = [Num 1, Num (- 1), NaN]\<rparr>) \<and>
   length (posts_to (''http://'' @ ''10.0.0.2'' @ ''/api/head'')
     (concat (take 180 (drop 7 (fst (updates (replicate 200 \<lparr>axes = [Num 1, Num (- 1), NaN]\<rparr>)
        (Misty2Robot ''10.0.0.2'' (Num 100) (Num 400) (Num 540)))))))) = 1 \<and>
   length (posts_to (''http://'' @ ''10.0.0.2'' @ ''/api/drive'')
     (concat (take 180 (drop 7 (fst (updates (replicate 200 \<lparr>axes = [Num 1, Num (- 1), NaN]\<rparr>)
        (Misty2Robot ''10.0.0.2'' (Num 100) (Num 400) (Num 540)))))))) = 1"
proof -
  have h: "7 + 180 \<le> length (replicate 200 \<lparr>axes = [Num 1, Num (- 1), NaN]\<rparr>)"
    by simp
  show ?thesis
    using h one_command_per_180_frames
      [where i = 7 and gs = "replicate 200 \<lparr>axes = [Num 1, Num (- 1), NaN]\<rparr>"
         and ip = "''10.0.0.2''" and q = "Num 100" and w = "Num 400" and h = "Num 540"]
    by blast
qed

subsection \<open>The head rotation\<close>

text \<open>
  Claim C2. A call of \<open>update\<close> adds to each component of \<open>headRotation\<close> the scaled,
  deadzone-filtered head axis (axis 2 for component 0, axis 3 for component 1) times the
  sensitivity and then clamps the sum: on numbers the new component is
  \<open>max(-100, min(h + delta * sensitivity, 100))\<close>, the product and the sum each
  rounded to a double. The sensitivity of a constructed robot is the double 0.02 and
  stays so. From a freshly constructed robot, after every call of a list of samples whose
  head axes are numbers, of any size, both components are numbers in [-100, 100].
  (A sample that lacks a head axis, or holds \<open>NaN\<close> there, is not a raw input in the
  sense of the specification, which asks the caller for four axis values; lemma
  \<open>NaN_example\<close> shows what the program does with one.)
\<close>

theorem headRotation_in_range:
  "(headRotation r = (Num a, Num b) \<and> sensitivity r = Num s \<and>
    scaleToCommandRange_spec (applyDeadzone_spec (axis g 2) (deadzone r)) = Num da \<and>
    scaleToCommandRange_spec (applyDeadzone_spec (axis g 3) (deadzone r)) = Num db \<longrightarrow>
      headRotation (snd (update g r)) =
        (Num (max (- 100) (min (double (a + double (da * s))) 100)),
         Num (max (- 100) (min (double (b + double (db * s))) 100)))) \<and>
   sensitivity (snd (updates (take n gs) (Misty2Robot ip q w h))) = Num (double 0.02) \<and>
   ((\<forall>g \<in> set gs. axis g 2 \<noteq> NaN \<and> axis g 3 \<noteq> NaN) \<longrightarrow>
      (\<exists>c d. headRotation (snd (updates (take n gs) (Misty2Robot ip q w h))) = (Num c, Num d) \<and>
             - 100 \<le> c \<and> c \<le> 100 \<and> - 100 \<le> d \<and> d \<le> 100))"
proof -
  have step: "headRotation (snd (update g r)) =
        (Num (max (- 100) (min (double (a + double (da * s))) 100)),
         Num (max (- 100) (min (double (b + double (db * s))) 100)))"
    if "headRotation r = (Num a, Num b) \<and> sensitivity r = Num s \<and>
        scaleToCommandRange_spec (applyDeadzone_spec (axis g 2) (deadzone r)) = Num da \<and>
        scaleToCommandRange_spec (applyDeadzone_spec (axis g 3) (deadzone r)) = Num db"
    using that by (simp add: update_headRotation nextHead_spec_def clamp_Num)
  have sens: "sensitivity (snd (updates (take n gs) (Misty2Robot ip q w h))) = Num (double 0.02)"
    by (simp only: updates_sensitivity Misty2Robot_fields)
  have rng: "\<exists>c d. headRotation (snd (updates (take n gs) (Misty2Robot ip q w h))) = (Num c, Num d) \<and>
             - 100 \<le> c \<and> c \<le> 100 \<and> - 100 \<le> d \<and> d \<le> 100"
    if a: "\<forall>g \<in> set gs. axis g 2 \<noteq> NaN \<and> axis g 3 \<noteq> NaN"
  proof -
    let ?h = "headRotation (snd (updates (take n gs) (Misty2Robot ip q w h)))"
    have "in_range (fst ?h) \<and> in_range (snd ?h)"
    proof (rule updates_in_range [where s = "double 0.02"])
      show "sensitivity (Misty2Robot ip q w h) = Num (double 0.02)"
        by (simp only: Misty2Robot_fields)
      show "in_range (fst (headRotation (Misty2Robot ip q w h)))"
        by (simp add: Misty2Robot_fields)
      show "in_range (snd (headRotation (Misty2Robot ip q w h)))"
        by (simp add: Misty2Robot_fields)
      show "\<forall>g \<in> set (take n gs). axis g 2 \<noteq> NaN \<and> axis g 3 \<noteq> NaN"
        using a by (meson in_set_takeD)
    qed
    then show ?thesis
      by (cases ?h; cases "fst ?h"; cases "snd ?h") simp_all
  qed
  show ?thesis
    using step sens rng by blast
qed

theorem headRotation_in_range_witness:
  "headRotation (snd (update \<lparr>axes = [Num 0, Num 0, Num (7 / 64), Num 1]\<rparr>
      ((Misty2Robot ''10.0.0.2'' (Num 100) (Num 400) (Num 540))
         \<lparr>headRotation := (Num (2026619832316723 / 1125899906842624), Num 99)\<rparr>))) =
     (Num (9007199254740991 / 4503599627370496), Num 100) \<and>
   in_range (fst (headRotation (snd (updates
      (take 2 [\<lparr>axes = [Num 0, Num 0, Num 1000, Num (- 1000)]\<rparr>,
               \<lparr>axes = [Num 0, Num 0, Num 0.5, Num (- 2)]\<rparr>])
      (Misty2Robot ''10.0.0.2'' (Num 100) (Num 400) (Num 540)))))) \<and>
   in_range (snd (headRotation (snd (updates
      (take 2 [\<lparr>axes = [Num 0, Num 0, Num 1000, Num (- 1000)]\<rparr>,
               \<lparr>axes = [Num 0, Num 0, Num 0.5, Num (- 2)]\<rparr>])
      (Misty2Robot ''10.0.0.2'' (Num 100) (Num 400) (Num 540))))))"
proof -
  let ?g = "\<lparr>axes = [Num 0, Num 0, Num (7 / 64), Num 1]\<rparr>"
  let ?r = "(Misty2Robot ''10.0.0.2'' (Num 100) (Num 400) (Num 540))
         \<lparr>headRotation := (Num (2026619832316723 / 1125899906842624), Num 99)\<rparr>"
  have pre: "headRotation ?r = (Num (2026619832316723 / 1125899906842624), Num 99) \<and>
      sensitivity ?r = Num (double 0.02) \<and>
      scaleToCommandRange_spec (applyDeadzone_spec (axis ?g 2) (deadzone ?r)) = Num 10 \<and>
      scaleToCommandRange_spec (applyDeadzone_spec (axis ?g 3) (deadzone ?r)) = Num 100"
    by (simp add: Misty2Robot_def axis_def applyDeadzone_spec_def double_eval)
  have one: "headRotation (snd (update ?g ?r)) =
     (Num (9007199254740991 / 4503599627370496), Num 100)"
    using pre headRotation_in_range
      [where g = ?g and r = ?r and a = "2026619832316723 / 1125899906842624" and b = 99
         and s = "double 0.02" and da = 10 and db = 100]
    by (simp add: double_eval)
  have h: "\<forall>g \<in> set [\<lparr>axes = [Num 0, Num 0, Num 1000, Num (- 1000)]\<rparr>,
                       \<lparr>axes = [Num 0, Num 0, Num 0.5, Num (- 2)]\<rparr>].
             axis g 2 \<noteq> NaN \<and> axis g 3 \<noteq> NaN"
    by (simp add: axis_def)
  obtain c d where "headRotation (snd (updates
      (take 2 [\<lparr>axes = [Num 0, Num 0, Num 1000, Num (- 1000)]\<rparr>,
               \<lparr>axes = [Num 0, Num 0, Num 0.5, Num (- 2)]\<rparr>])
      (Misty2Robot ''10.0.0.2'' (Num 100) (Num 400) (Num 540)))) = (Num c, Num d)"
      "- 100 \<le> c" "c \<le> 100" "- 100 \<le> d" "d \<le> 100"
    using h headRotation_in_range
      [where gs = "[\<lparr>axes = [Num 0, Num 0, Num 1000, Num (- 1000)]\<rparr>,
                    \<lparr>axes = [Num 0, Num 0, Num 0.5, Num (- 2)]\<rparr>]" and n = 2
         and ip = "''10.0.0.2''" and q = "Num 100" and w = "Num 400" and h = "Num 540"]
    by blast
  then show ?thesis
    using one by simp
qed

subsection \<open>The deadzone filter and the scaling\<close>

text \<open>
  Claim C3. \<open>readAnalogSticks\<close> returns four values. For each of the four axes, with raw
  value \<open>v\<close> and deadzone \<open>d\<close>: if \<open>-d < v < d\<close> the value returned for that axis is
  exactly 0; if \<open>v = d\<close> or \<open>v = -d\<close>, or \<open>v\<close> is not strictly inside the interval
  for any other reason, the value returned is \<open>v\<close>. The value returned for an axis
  depends on no other axis.
\<close>

theorem deadzone_filter:
  assumes "i < 4"
  shows "length (readAnalogSticks g d) = 4 \<and>
    (js_lt (js_neg d) (axis g i) \<and> js_lt (axis g i) d \<longrightarrow> readAnalogSticks g d ! i = Num 0) \<and>
    (axis g i = d \<or> axis g i = js_neg d \<or> \<not> (js_lt (js_neg d) (axis g i) \<and> js_lt (axis g i) d)
       \<longrightarrow> readAnalogSticks g d ! i = axis g i)"
proof -
  from assms have "i = 0 \<or> i = 1 \<or> i = 2 \<or> i = 3" by arith
  then show ?thesis
    by (elim disjE) (auto simp: readAnalogSticks_spec applyDeadzone_spec_def js_lt_irrefl)
qed

theorem deadzone_filter_witness:
  "readAnalogSticks \<lparr>axes = [Num 0.05, Num 0.1, Num (- 0.1), Num 0.5]\<rparr> (Num 0.1) ! 0 = Num 0 \<and>
   readAnalogSticks \<lparr>axes = [Num 0.05, Num 0.1, Num (- 0.1), Num 0.5]\<rparr> (Num 0.1) ! 1 = Num 0.1 \<and>
   readAnalogSticks \<lparr>axes = [Num 0.05, Num 0.1, Num (- 0.1), Num 0.5]\<rparr> (Num 0.1) ! 2 = Num (- 0.1) \<and>
   readAnalogSticks \<lparr>axes = [Num 0.05, Num 0.1, Num (- 0.1), Num 0.5]\<rparr> (Num 0.1) ! 3 = Num 0.5"
  using deadzone_filter [where i = 0 and d = "Num 0.1" and g = "\<lparr>axes = [Num 0.05, Num 0.1, Num (- 0.1), Num 0.5]\<rparr>"]
        deadzone_filter [where i = 1 and d = "Num 0.1" and g = "\<lparr>axes = [Num 0.05, Num 0.1, Num (- 0.1), Num 0.5]\<rparr>"]
        deadzone_filter [where i = 2 and d = "Num 0.1" and g = "\<lparr>axes = [Num 0.05, Num 0.1, Num (- 0.1), Num 0.5]\<rparr>"]
        deadzone_filter [where i = 3 and d = "Num 0.1" and g = "\<lparr>axes = [Num 0.05, Num 0.1, Num (- 0.1), Num 0.5]\<rparr>"]
  by (simp add: axis_def)

text \<open>
  Claim C4. On two numbers \<open>a\<close> and \<open>b\<close>, \<open>mapAnalogValues\<close> returns
  \<open>floor((v - (-1)) / (1 - (-1)) * (100 - (-100)) + (-100))\<close> for \<open>v = a\<close> and for
  \<open>v = b\<close>, the formula being evaluated as the program evaluates it, each of its
  operations giving a double. It maps (-1, -1) to (-100, -100) and (1, 1) to (100, 100),
  and when both inputs lie in [-1, 1] both outputs are integers in [-100, 100].
  (Lemma \<open>doubles_example\<close>: at the doubles 0.13 and 0.16 the outputs are 12 and 15,
  one less than the formula gives over the reals.)
\<close>

theorem mapAnalogValues_scaling:
  "mapAnalogValues (Num a) (Num b) =
     [Num (of_int \<lfloor>double (double (double (double (a - (- 1)) / double (1 - (- 1)))
                                       * double (100 - (- 100)))
                               + (- 100))\<rfloor>),
      Num (of_int \<lfloor>double (double (double (double (b - (- 1)) / double (1 - (- 1)))
                                       * double (100 - (- 100)))
                               + (- 100))\<rfloor>)] \<and>
   mapAnalogValues (Num (- 1)) (Num (- 1)) = [Num (- 100), Num (- 100)] \<and>
   mapAnalogValues (Num 1) (Num 1) = [Num 100, Num 100] \<and>
   (- 1 \<le> a \<and> a \<le> 1 \<and> - 1 \<le> b \<and> b \<le> 1 \<longrightarrow>
      (\<exists>m n :: int. mapAnalogValues (Num a) (Num b) = [Num (of_int m), Num (of_int n)] \<and>
         - 100 \<le> m \<and> m \<le> 100 \<and> - 100 \<le> n \<and> n \<le> 100))"
proof -
  have f: "mapAnalogValues (Num a) (Num b) =
     [Num (of_int \<lfloor>double (double (double (double (a - (- 1)) / double (1 - (- 1)))
                                       * double (100 - (- 100)))
                               + (- 100))\<rfloor>),
      Num (of_int \<lfloor>double (double (double (double (b - (- 1)) / double (1 - (- 1)))
                                       * double (100 - (- 100)))
                               + (- 100))\<rfloor>)]" for a b
    by (simp only: mapAnalogValues_spec scaleToCommandRange_spec.simps)
  have lo: "mapAnalogValues (Num (- 1)) (Num (- 1)) = [Num (- 100), Num (- 100)]"
    by (simp add: f double_consts)
  have hi: "mapAnalogValues (Num 1) (Num 1) = [Num 100, Num 100]"
    by (simp add: f double_consts)
  have rng: "\<exists>m n :: int. mapAnalogValues (Num a) (Num b) = [Num (of_int m), Num (of_int n)] \<and>
         - 100 \<le> m \<and> m \<le> 100 \<and> - 100 \<le> n \<and> n \<le> 100"
    if "- 1 \<le> a \<and> a \<le> 1 \<and> - 1 \<le> b \<and> b \<le> 1"
    using that scale_bounds [of a] scale_bounds [of b] f [of a b] by blast
  show ?thesis
    using f lo hi rng by blast
qed

theorem mapAnalogValues_scaling_witness:
  "(- 1 \<le> double 0.13 \<and> double 0.13 \<le> 1 \<and> - 1 \<le> double 0.16 \<and> double 0.16 \<le> 1) \<and>
   mapAnalogValues (Num (double 0.13)) (Num (double 0.16)) = [Num 12, Num 15]"
  using mapAnalogValues_scaling [of "double 0.13" "double 0.16"]
  by (simp add: double_eval)

subsection \<open>What the commands carry\<close>

text \<open>
  Claim C5. A call of \<open>update\<close> posts a head command exactly when the incremented head
  counter is 180, and the command then carries \<open>Pitch = trunc(headRotation[1])\<close>,
  \<open>Yaw = -trunc(headRotation[0])\<close> and \<open>Velocity = 100\<close>, where \<open>headRotation\<close> is
  the rotation after the accumulation and the clamping of this call.
\<close>

theorem head_command_contents:
  "posts_to (''http://'' @ ipAddress r @ ''/api/head'') (fst (update g r)) =
     (if Suc (framesToMoveHead r) = 180
      then [\<lparr> url = ''http://'' @ ipAddress r @ ''/api/head'', http_method = ''POST'',
              body = Some [(''Pitch'', JNum (Math_trunc (snd (headRotation (snd (update g r)))))),
                           (''Yaw'', JNum (js_neg (Math_trunc (fst (headRotation (snd (update g r))))))),
                           (''Velocity'', JNum (Num 100))] \<rparr>]
      else [])"
  by (simp add: update_effects update_headRotation)

theorem head_command_contents_witness:
  "posts_to (''http://'' @ ''10.0.0.2'' @ ''/api/head'')
     (fst (update \<lparr>axes = [Num 0, Num 0, Num 1, Num (- 1)]\<rparr>
        ((new_Misty2Robot ''10.0.0.2'')
           \<lparr>headRotation := (Num 41.5, Num (- 7.5)), framesToMoveHead := 179\<rparr>))) =
     [\<lparr> url = ''http://10.0.0.2/api/head'', http_method = ''POST'',
        body = Some [(''Pitch'', JNum (Num (- 9))), (''Yaw'', JNum (Num (- 43))),
                     (''Velocity'', JNum (Num 100))] \<rparr>]"
  using head_command_contents
    [where g = "\<lparr>axes = [Num 0, Num 0, Num 1, Num (- 1)]\<rparr>"
       and r = "(new_Misty2Robot ''10.0.0.2'')
           \<lparr>headRotation := (Num 41.5, Num (- 7.5)), framesToMoveHead := 179\<rparr>"]
  by (simp add: update_headRotation nextHead_spec_def new_Misty2Robot_def Misty2Robot_def axis_def
        applyDeadzone_spec_def clamp_Num double_eval)

text \<open>
  Claim C6. A call of \<open>update\<close> posts a drive command exactly when the incremented body
  counter is 180, and the command then carries as \<open>LinearVelocity\<close> the scaled,
  deadzone-filtered axis 1 of the sample (the Y axis of the drive stick) and as
  \<open>AngularVelocity\<close> the scaled, deadzone-filtered axis 0 (its X axis), scaled in
  doubles as the program does: for the axes 0.13 and 0.16 it posts 15 and 12.
\<close>

theorem drive_command_contents:
  "posts_to (''http://'' @ ipAddress r @ ''/api/drive'') (fst (update g r)) =
     (if Suc (framesToMoveBody r) = 180
      then [\<lparr> url = ''http://'' @ ipAddress r @ ''/api/drive'', http_method = ''POST'',
              body = Some [(''LinearVelocity'',
                            JNum (scaleToCommandRange_spec (applyDeadzone_spec (axis g 1) (deadzone r)))),
                           (''AngularVelocity'',
                            JNum (scaleToCommandRange_spec (applyDeadzone_spec (axis g 0) (deadzone r))))] \<rparr>]
      else [])"
  by (simp add: update_effects)

theorem drive_command_contents_witness:
  "posts_to (''http://'' @ ''10.0.0.2'' @ ''/api/drive'')
     (fst (update \<lparr>axes = [Num (double 0.13), Num (double 0.16), Num 0, Num 0]\<rparr>
        ((new_Misty2Robot ''10.0.0.2'')\<lparr>framesToMoveBody := 179\<rparr>))) =
     [\<lparr> url = ''http://10.0.0.2/api/drive'', http_method = ''POST'',
        body = Some [(''LinearVelocity'', JNum (Num 15)),
                     (''AngularVelocity'', JNum (Num 12))] \<rparr>]"
  using drive_command_contents
    [where g = "\<lparr>axes = [Num (double 0.13), Num (double 0.16), Num 0, Num 0]\<rparr>"
       and r = "(new_Misty2Robot ''10.0.0.2'')\<lparr>framesToMoveBody := 179\<rparr>"]
  by (simp add: new_Misty2Robot_def Misty2Robot_def axis_def applyDeadzone_spec_def double_eval)

subsection \<open>The video stream\<close>

text \<open>
  Claim C7. \<open>getVideoStream\<close> posts exactly one start request, with \<open>Port\<close> 5678,
  \<open>Rotation\<close> 90 and the width, height and quality of the robot object. Where the
  address of the robot gives a socket URL that parses, so that the socket constructor
  does not throw: if the response has status 200 it opens a socket to port 5678 of the
  robot, stores it in \<open>ws\<close> and resolves with it, and only then. On every other outcome
  it opens no socket, settles with an error and leaves the robot object, its \<open>ws\<close>
  included, as it was; on a response with another status the error is the one with the
  message \<open>Failed to start video stream.\<close> Where the constructor throws, a response
  with status 200 ends in its exception, with no socket either.
\<close>

theorem getVideoStream_start:
  "posts_to (''http://'' @ ipAddress r @ ''/api/videostreaming/start'')
     (fst (getVideoStream response socket r)) =
     [\<lparr> url = ''http://'' @ ipAddress r @ ''/api/videostreaming/start'', http_method = ''POST'',
        body = Some [(''Port'', JNum (Num 5678)), (''Rotation'', JNum (Num 90)),
                     (''Width'', JNum (imageWidth r)), (''Height'', JNum (imageHeight r)),
                     (''Quality'', JNum (videoQuality r))] \<rparr>] \<and>
   (socket = Constructed \<longrightarrow>
      length (fst (getVideoStream response socket r)) = (if response = Resolved 200 then 2 else 1) \<and>
      (Connect (''ws://'' @ ipAddress r @ '':5678'') \<in> set (fst (getVideoStream response socket r))
         \<longleftrightarrow> response = Resolved 200) \<and>
      (fst (snd (getVideoStream response socket r)) =
         Inr \<lparr> ws_url = ''ws://'' @ ipAddress r @ '':5678'', onclose = Some (onclose_handler r) \<rparr>
         \<longleftrightarrow> response = Resolved 200) \<and>
      (response = Resolved 200 \<longrightarrow>
         snd (snd (getVideoStream response socket r)) =
           r\<lparr>ws := Some \<lparr> ws_url = ''ws://'' @ ipAddress r @ '':5678'',
                            onclose = Some (onclose_handler r) \<rparr>\<rparr>)) \<and>
   (response \<noteq> Resolved 200 \<or> socket = Throws \<longrightarrow>
      fst (getVideoStream response socket r) =
        [Fetch \<lparr> url = ''http://'' @ ipAddress r @ ''/api/videostreaming/start'',
                 http_method = ''POST'',
                 body = Some [(''Port'', JNum (Num 5678)), (''Rotation'', JNum (Num 90)),
                              (''Width'', JNum (imageWidth r)), (''Height'', JNum (imageHeight r)),
                              (''Quality'', JNum (videoQuality r))] \<rparr>] \<and>
      (\<exists>e. fst (snd (getVideoStream response socket r)) = Inl e) \<and>
      snd (snd (getVideoStream response socket r)) = r) \<and>
   (status \<noteq> 200 \<longrightarrow>
      fst (snd (getVideoStream (Resolved status) socket r)) =
        Inl (Error ''Failed to start video stream.'')) \<and>
   fst (snd (getVideoStream (Resolved 200) Throws r)) = Inl DOMException"
  by (cases response; cases socket) (simp_all add: getVideoStream_def Let_def)

theorem getVideoStream_start_witness:
  "fst (getVideoStream (Resolved 200) Constructed (new_Misty2Robot ''10.0.0.2'')) =
     [Fetch \<lparr> url = ''http://10.0.0.2/api/videostreaming/start'', http_method = ''POST'',
        body = Some [(''Port'', JNum (Num 5678)), (''Rotation'', JNum (Num 90)),
                     (''Width'', JNum (Num 400)), (''Height'', JNum (Num 540)),
                     (''Quality'', JNum (Num 100))] \<rparr>,
      Connect ''ws://10.0.0.2:5678''] \<and>
   fst (snd (getVideoStream (Resolved 200) Constructed (new_Misty2Robot ''10.0.0.2''))) =
     Inr \<lparr> ws_url = ''ws://10.0.0.2:5678'',
           onclose = Some (onclose_handler (new_Misty2Robot ''10.0.0.2'')) \<rparr> \<and>
   ws (snd (snd (getVideoStream (Resolved 200) Constructed (new_Misty2Robot ''10.0.0.2'')))) =
     Some \<lparr> ws_url = ''ws://10.0.0.2:5678'',
            onclose = Some (onclose_handler (new_Misty2Robot ''10.0.0.2'')) \<rparr> \<and>
   getVideoStream (Resolved 404) Constructed (new_Misty2Robot ''10.0.0.2'') =
     ([Fetch \<lparr> url = ''http://10.0.0.2/api/videostreaming/start'', http_method = ''POST'',
         body = Some [(''Port'', JNum (Num 5678)), (''Rotation'', JNum (Num 90)),
                      (''Width'', JNum (Num 400)), (''Height'', JNum (Num 540)),
                      (''Quality'', JNum (Num 100))] \<rparr>],
      Inl (Error ''Failed to start video stream.''),
      new_Misty2Robot ''10.0.0.2'') \<and>
   getVideoStream (Resolved 200) Throws (new_Misty2Robot ''127.0.0.1:8080'') =
     ([Fetch \<lparr> url = ''http://127.0.0.1:8080/api/videostreaming/start'', http_method = ''POST'',
         body = Some [(''Port'', JNum (Num 5678)), (''Rotation'', JNum (Num 90)),
                      (''Width'', JNum (Num 400)), (''Height'', JNum (Num 540)),
                      (''Quality'', JNum (Num 100))] \<rparr>],
      Inl DOMException,
      new_Misty2Robot ''127.0.0.1:8080'')"
proof -
  have a: "fst (getVideoStream (Resolved 200) Constructed (new_Misty2Robot ''10.0.0.2'')) =
     [Fetch \<lparr> url = ''http://10.0.0.2/api/videostreaming/start'', http_method = ''POST'',
        body = Some [(''Port'', JNum (Num 5678)), (''Rotation'', JNum (Num 90)),
                     (''Width'', JNum (Num 400)), (''Height'', JNum (Num 540)),
                     (''Quality'', JNum (Num 100))] \<rparr>,
      Connect ''ws://10.0.0.2:5678'']"
    by (simp add: getVideoStream_def Let_def new_Misty2Robot_def Misty2Robot_def)
  have f: "ipAddress (new_Misty2Robot ip) = ip" "imageWidth (new_Misty2Robot ip) = Num 400"
    "imageHeight (new_Misty2Robot ip) = Num 540" "videoQuality (new_Misty2Robot ip) = Num 100" for ip
    by (simp_all add: new_Misty2Robot_def Misty2Robot_def)
  have b: "getVideoStream (Resolved 404) Constructed (new_Misty2Robot ''10.0.0.2'') =
     (fst (getVideoStream (Resolved 404) Constructed (new_Misty2Robot ''10.0.0.2'')),
      fst (snd (getVideoStream (Resolved 404) Constructed (new_Misty2Robot ''10.0.0.2''))),
      snd (snd (getVideoStream (Resolved 404) Constructed (new_Misty2Robot ''10.0.0.2''))))"
    "getVideoStream (Resolved 200) Throws (new_Misty2Robot ''127.0.0.1:8080'') =
     (fst (getVideoStream (Resolved 200) Throws (new_Misty2Robot ''127.0.0.1:8080'')),
      fst (snd (getVideoStream (Resolved 200) Throws (new_Misty2Robot ''127.0.0.1:8080''))),
      snd (snd (getVideoStream (Resolved 200) Throws (new_Misty2Robot ''127.0.0.1:8080''))))"
    by simp_all
  show ?thesis
    using a
      getVideoStream_start [where response = "Resolved 200" and socket = Constructed
        and r = "new_Misty2Robot ''10.0.0.2''" and status = 404]
      getVideoStream_start [where response = "Resolved 404" and socket = Constructed
        and r = "new_Misty2Robot ''10.0.0.2''" and status = 404]
      getVideoStream_start [where response = "Resolved 200" and socket = Throws
        and r = "new_Misty2Robot ''127.0.0.1:8080''" and status = 404]
    by (subst b(1), subst b(2)) (simp add: f)
qed

text \<open>
  Claim C8. Every close of the socket of a session is to send exactly one stop request.
  The program does so as long as \<open>onclose\<close> holds the handler that \<open>getVideoStream\<close>
  assigned (lemma \<open>onclose_handler_in_place\<close>). The quick start of the README assigns
  its own function to \<open>onclose\<close> of the socket it received, which replaces that
  handler: when the socket then closes, the only effect is the log line of the quick
  start, and no request is posted to the stop URL.
\<close>

theorem quick_start_close_sends_no_stop:
  "dispatch_close
     (quick_start_then
        (projr (fst (snd (getVideoStream (Resolved 200) Constructed (new_Misty2Robot ''10.0.0.2''))))))
     RemoteClose = [Log ''Video stream closed.''] \<and>
   posts_to ''http://10.0.0.2/api/videostreaming/stop''
     (dispatch_close
        (quick_start_then
           (projr (fst (snd (getVideoStream (Resolved 200) Constructed (new_Misty2Robot ''10.0.0.2''))))))
        RemoteClose) = []"
  by (simp add: getVideoStream_def Let_def quick_start_then_def dispatch_close_def client_onclose_def)

subsection \<open>The reboot\<close>

text \<open>
  Claim C9. In every state of the robot object and whatever the outcome of the request,
  \<open>restart\<close> posts exactly one request, the reboot request with \<open>Core = false\<close> and
  \<open>SensoryServices = true\<close>, and nothing else, and leaves the robot object as it was;
  on a response it succeeds whatever the status is.
\<close>

theorem restart_one_reboot_request:
  "fst (restart response r) =
     [Fetch \<lparr> url = ''http://'' @ ipAddress r @ ''/api/reboot'', http_method = ''POST'',
              body = Some [(''Core'', JBool False), (''SensoryServices'', JBool True)] \<rparr>] \<and>
   snd (snd (restart response r)) = r \<and>
   fst (snd (restart (Resolved status) r)) = Inr ()"
  by (cases response) (simp_all add: restart_def Let_def)

subsection \<open>Idle sticks\<close>

text \<open>
  Claim C10. After any list of calls of \<open>update\<close> on a freshly constructed robot the
  deadzone is the default, the double 0.1. If the four axes of the next sample lie strictly inside
  it, the call of \<open>update\<close> on that sample leaves both components of \<open>headRotation\<close>
  as they were (zero scales to exactly 0), and the drive command it posts, if
  it posts one, carries \<open>LinearVelocity = 0\<close> and \<open>AngularVelocity = 0\<close>.
\<close>

theorem idle_sticks_hold_still:
  assumes "js_lt (js_neg (Num (double 0.1))) (axis g 0) \<and> js_lt (axis g 0) (Num (double 0.1))"
      and "js_lt (js_neg (Num (double 0.1))) (axis g 1) \<and> js_lt (axis g 1) (Num (double 0.1))"
      and "js_lt (js_neg (Num (double 0.1))) (axis g 2) \<and> js_lt (axis g 2) (Num (double 0.1))"
      and "js_lt (js_neg (Num (double 0.1))) (axis g 3) \<and> js_lt (axis g 3) (Num (double 0.1))"
  shows "deadzone (snd (updates gs (Misty2Robot ip q w h))) = Num (double 0.1) \<and>
    mapAnalogValues (Num 0) (Num 0) = [Num 0, Num 0] \<and>
    headRotation (snd (update g (snd (updates gs (Misty2Robot ip q w h))))) =
      headRotation (snd (updates gs (Misty2Robot ip q w h))) \<and>
    posts_to (''http://'' @ ip @ ''/api/drive'')
       (fst (update g (snd (updates gs (Misty2Robot ip q w h))))) =
      (if Suc (framesToMoveBody (snd (updates gs (Misty2Robot ip q w h)))) = 180
       then [\<lparr> url = ''http://'' @ ip @ ''/api/drive'', http_method = ''POST'',
               body = Some [(''LinearVelocity'', JNum (Num 0)),
                            (''AngularVelocity'', JNum (Num 0))] \<rparr>]
       else [])"
proof -
  let ?r = "snd (updates gs (Misty2Robot ip q w h))"
  have dz: "deadzone ?r = Num (double 0.1)"
    by (simp only: updates_deadzone Misty2Robot_fields)
  have sens: "sensitivity ?r = Num (double 0.02)"
    by (simp only: updates_sensitivity Misty2Robot_fields)
  have ip: "ipAddress ?r = ip"
    by (simp only: updates_ipAddress Misty2Robot_fields)
  have st: "settled (fst (headRotation ?r))" "settled (snd (headRotation ?r))"
    using updates_settled [of "Misty2Robot ip q w h" gs] by (simp_all add: Misty2Robot_fields)
  have zero: "mapAnalogValues (Num 0) (Num 0) = [Num 0, Num 0]"
    by (simp only: mapAnalogValues_spec scale_zero)
  have hold: "headRotation (snd (update g ?r)) = headRotation ?r"
    unfolding update_headRotation
    using assms(3,4) by (intro idle_nextHead_spec [OF sens st]) (simp_all only: dz)
  have z0: "applyDeadzone_spec (axis g 0) (deadzone ?r) = Num 0"
    using assms(1) by (simp add: applyDeadzone_spec_def dz)
  have z1: "applyDeadzone_spec (axis g 1) (deadzone ?r) = Num 0"
    using assms(2) by (simp add: applyDeadzone_spec_def dz)
  have drive: "posts_to (''http://'' @ ip @ ''/api/drive'') (fst (update g ?r)) =
      (if Suc (framesToMoveBody ?r) = 180
       then [\<lparr> url = ''http://'' @ ip @ ''/api/drive'', http_method = ''POST'',
               body = Some [(''LinearVelocity'', JNum (Num 0)),
                            (''AngularVelocity'', JNum (Num 0))] \<rparr>]
       else [])"
    using update_drive_posts_eq [of ?r g] unfolding ip z0 z1 scale_zero .
  show ?thesis
    using dz zero hold drive by blast
qed

theorem idle_sticks_hold_still_witness:
  "js_lt (js_neg (Num (double 0.1))) (axis \<lparr>axes = [Num 0.05, Num (- 0.05), Num 0.09, Num 0]\<rparr> 0) \<and>
   js_lt (axis \<lparr>axes = [Num 0.05, Num (- 0.05), Num 0.09, Num 0]\<rparr> 3) (Num (double 0.1)) \<and>
   headRotation (snd (update \<lparr>axes = [Num 0.05, Num (- 0.05), Num 0.09, Num 0]\<rparr>
      (snd (updates [\<lparr>axes = [Num 0, Num 0, Num 1, Num (- 1)]\<rparr>]
         (Misty2Robot ''10.0.0.2'' (Num 100) (Num 400) (Num 540)))))) = (Num 2, Num (- 2))"
proof -
  have a: "js_lt (js_neg (Num (double 0.1))) (axis \<lparr>axes = [Num 0.05, Num (- 0.05), Num 0.09, Num 0]\<rparr> 0) \<and>
           js_lt (axis \<lparr>axes = [Num 0.05, Num (- 0.05), Num 0.09, Num 0]\<rparr> 0) (Num (double 0.1))"
          "js_lt (js_neg (Num (double 0.1))) (axis \<lparr>axes = [Num 0.05, Num (- 0.05), Num 0.09, Num 0]\<rparr> 1) \<and>
           js_lt (axis \<lparr>axes = [Num 0.05, Num (- 0.05), Num 0.09, Num 0]\<rparr> 1) (Num (double 0.1))"
          "js_lt (js_neg (Num (double 0.1))) (axis \<lparr>axes = [Num 0.05, Num (- 0.05), Num 0.09, Num 0]\<rparr> 2) \<and>
           js_lt (axis \<lparr>axes = [Num 0.05, Num (- 0.05), Num 0.09, Num 0]\<rparr> 2) (Num (double 0.1))"
          "js_lt (js_neg (Num (double 0.1))) (axis \<lparr>axes = [Num 0.05, Num (- 0.05), Num 0.09, Num 0]\<rparr> 3) \<and>
           js_lt (axis \<lparr>axes = [Num 0.05, Num (- 0.05), Num 0.09, Num 0]\<rparr> 3) (Num (double 0.1))"
    by (simp_all add: axis_def double_eval)
  have before: "headRotation (snd (updates [\<lparr>axes = [Num 0, Num 0, Num 1, Num (- 1)]\<rparr>]
         (Misty2Robot ''10.0.0.2'' (Num 100) (Num 400) (Num 540)))) = (Num 2, Num (- 2))"
    by (simp add: updates_Cons update_headRotation nextHead_spec_def Misty2Robot_fields axis_def
          applyDeadzone_spec_def clamp_Num double_eval del: updates.simps(2))
  show ?thesis
    using a before idle_sticks_hold_still [OF a,
      where gs = "[\<lparr>axes = [Num 0, Num 0, Num 1, Num (- 1)]\<rparr>]"
        and ip = "''10.0.0.2''" and q = "Num 100" and w = "Num 400" and h = "Num 540"]
    by simp
qed

end
